theory Spec2Isabelle
  imports Complex_Main "HOL-Library.Word" "HOL-Library.Option_ord"
begin

text \<open>
  The autoposting engine of the promo bot: the cycle that decides whether to post, where
  and with what content, and how it reacts to the outcome of the send. The repository
  holds two revisions of the engine, and both are modelled: \<^verbatim>\<open>src/index.js\<close>
  (\<^verbatim>\<open>promoCycle\<close> and \<^verbatim>\<open>postToZone\<close>; its second copy in the same file has the same
  functions of the cycle) and \<^verbatim>\<open>src/unnamed/part_000\<close> (\<^verbatim>\<open>attemptOnePost\<close>). Where the two revisions
  have a function of the same name, the one of part_000 carries the suffix \<open>_part0\<close>.
  The clock, the random draws, the messaging platform and the failures of the store are
  inputs of a cycle; the store's tables and the module variable \<^verbatim>\<open>lastGlobalPostAt\<close> are
  its state. The schedulers that start the cycles, \<^verbatim>\<open>scheduleNextCycle\<close> of index.js,
  the interval of its second copy and \<^verbatim>\<open>startScheduler\<close> of part_000, are modelled apart, as
  transition systems in which a cycle is the pair of its call and its return.
\<close>

section \<open>JavaScript values\<close>

text \<open>
  A JavaScript string is a sequence of UTF-16 code units, so \<open>length\<close>, \<open>take\<close> and
  \<open>drop\<close> count what \<^verbatim>\<open>.length\<close> and \<^verbatim>\<open>.slice\<close> count. ASCII literals are written
  with \<open>js\<close>.
\<close>

type_synonym jschar = "16 word"
type_synonym jsstring = "jschar list"

definition js :: "string \<Rightarrow> jsstring" where
  "js s = map (\<lambda>c. of_nat (of_char c)) s"

text \<open>\<^verbatim>\<open>\d\<close> of a JavaScript regular expression.\<close>

definition isDigit :: "jschar \<Rightarrow> bool" where
  "isDigit c = (0x30 \<le> c \<and> c \<le> 0x39)"

text \<open>\<^verbatim>\<open>\s\<close> of a JavaScript regular expression (white space and line terminators).\<close>

definition isSpace :: "jschar \<Rightarrow> bool" where
  "isSpace c = (c \<in> {0x09, 0x0A, 0x0B, 0x0C, 0x0D, 0x20, 0xA0, 0x1680, 0x2028, 0x2029,
                       0x202F, 0x205F, 0x3000, 0xFEFF} \<or> (0x2000 \<le> c \<and> c \<le> 0x200A))"

text \<open>\<^verbatim>\<open>[a-zA-Z0-9_]\<close>, the characters that part_000's buildDeepLink keeps.\<close>

definition idSafe :: "jschar \<Rightarrow> bool" where
  "idSafe c = ((0x61 \<le> c \<and> c \<le> 0x7A) \<or> (0x41 \<le> c \<and> c \<le> 0x5A) \<or>
               (0x30 \<le> c \<and> c \<le> 0x39) \<or> c = 0x5F)"

text \<open>\<^verbatim>\<open>Number(s)\<close> for a string of decimal digits.\<close>

definition digitsToNumber :: "jsstring \<Rightarrow> nat" where
  "digitsToNumber s = foldl (\<lambda>a c. 10 * a + (unat c - 48)) 0 s"

text \<open>
  \<^verbatim>\<open>Number(x || d)\<close> for a numeric column \<open>x\<close> that may be null or missing: \<open>0\<close>, null
  and undefined are falsy and give the default.
\<close>

definition num_or :: "int option \<Rightarrow> int \<Rightarrow> int" where
  "num_or x d = (case x of None \<Rightarrow> d | Some n \<Rightarrow> if n = 0 then d else n)"

text \<open>
  \<^verbatim>\<open>Number(process.env.X || d)\<close>: an environment variable is a string, so only the unset
  and the empty one (\<open>None\<close>) are falsy; \<open>Some n\<close> is a string that denotes the integer
  \<open>n\<close> (\<^verbatim>\<open>"0"\<close> is truthy and gives 0). Strings that are not integers are outside the model.
\<close>

definition env_num :: "int option \<Rightarrow> int \<Rightarrow> int" where
  "env_num v d = (case v of None \<Rightarrow> d | Some n \<Rightarrow> n)"

text \<open>\<^verbatim>\<open>Number.prototype.toString(radix)\<close> and \<^verbatim>\<open>String(n)\<close> for integers.\<close>

definition digitChar :: "nat \<Rightarrow> jschar" where
  "digitChar d = of_nat (if d < 10 then 48 + d else 87 + d)"

function natToString :: "nat \<Rightarrow> nat \<Rightarrow> jsstring" where
  "natToString b n =
     (if b < 2 \<or> n < b then [digitChar n] else natToString b (n div b) @ [digitChar (n mod b)])"
  by pat_completeness auto
termination
  by (relation "measure (\<lambda>(b, n). n)") auto

declare natToString.simps [simp del]

definition intToString :: "nat \<Rightarrow> int \<Rightarrow> jsstring" where
  "intToString b i = (if i < 0 then 0x2D # natToString b (nat (- i)) else natToString b (nat i))"

text \<open>\<^verbatim>\<open>s.slice(-k)\<close>: the last \<open>k\<close> code units.\<close>

definition sliceLast :: "nat \<Rightarrow> jsstring \<Rightarrow> jsstring" where
  "sliceLast k s = drop (length s - k) s"

text \<open>\<^verbatim>\<open>String.prototype.trim\<close>.\<close>

definition trim :: "jsstring \<Rightarrow> jsstring" where
  "trim s = rev (dropWhile isSpace (rev (dropWhile isSpace s)))"

section \<open>Configuration\<close>

text \<open>
  The process environment, as far as the engine reads it. Numeric variables are
  \<open>None\<close> when unset or empty.
\<close>

record env =
  env_GLOBAL_MIN_GAP_SECONDS :: "int option"
  env_DEFAULT_MIN_GAP_MINUTES :: "int option"
  env_DEFAULT_DAILY_CAP :: "int option"
  env_AUTO_DISABLE_AFTER :: "int option"
  env_QUIET_HOURS :: jsstring
  env_PROMO_LINK_BASE :: jsstring
  env_MAIN_BOT_USERNAME :: jsstring

definition GLOBAL_MIN_GAP_SECONDS :: "env \<Rightarrow> int" where
  "GLOBAL_MIN_GAP_SECONDS e = max 10 (env_num (env_GLOBAL_MIN_GAP_SECONDS e) 60)"

definition DEFAULT_MIN_GAP_MINUTES :: "env \<Rightarrow> int" where
  "DEFAULT_MIN_GAP_MINUTES e = max 1 (env_num (env_DEFAULT_MIN_GAP_MINUTES e) 360)"

definition DEFAULT_DAILY_CAP :: "env \<Rightarrow> int" where
  "DEFAULT_DAILY_CAP e = max 1 (env_num (env_DEFAULT_DAILY_CAP e) 3)"

definition QUIET_HOURS :: "env \<Rightarrow> jsstring" where
  "QUIET_HOURS e = trim (env_QUIET_HOURS e)"

definition PROMO_LINK_BASE :: "env \<Rightarrow> jsstring" where
  "PROMO_LINK_BASE e = trim (env_PROMO_LINK_BASE e)"

text \<open>The user name after \<^verbatim>\<open>.replace('@', '')\<close>; the default is \<^verbatim>\<open>jigcoinbot\<close>.\<close>

definition MAIN_BOT_USERNAME :: "env \<Rightarrow> jsstring" where
  "MAIN_BOT_USERNAME e =
     (if env_MAIN_BOT_USERNAME e = [] then js ''jigcoinbot'' else env_MAIN_BOT_USERNAME e)"

section \<open>Quiet hours\<close>

text \<open>
  The regular expression \<^verbatim>\<open>/^(\d{1,2})\s*-\s*(\d{1,2})$/\<close>, shared by both revisions.
  Each group takes one or two digits greedily; backtracking cannot help, because what
  follows a group is never a digit.
\<close>

definition quietMatch :: "jsstring \<Rightarrow> (jsstring \<times> jsstring) option" where
  "quietMatch s =
     (let m1 = takeWhile isDigit (take 2 s);
          r1 = dropWhile isSpace (drop (length m1) s)
      in if m1 = [] then None
         else (case r1 of
                 [] \<Rightarrow> None
               | c # r2 \<Rightarrow>
                   if c \<noteq> 0x2D then None
                   else (let r3 = dropWhile isSpace r2;
                             m2 = takeWhile isDigit (take 2 r3)
                         in if m2 = [] \<or> drop (length m2) r3 \<noteq> [] then None
                            else Some (m1, m2))))"

text \<open>\<^verbatim>\<open>new Date(t).getUTCHours()\<close> for a clock reading \<open>t\<close> in milliseconds.\<close>

definition getUTCHours :: "int \<Rightarrow> nat" where
  "getUTCHours t = nat ((t div 3600000) mod 24)"

text \<open>index.js, \<^verbatim>\<open>inQuietHours\<close>; \<open>q\<close> is \<^verbatim>\<open>QUIET_HOURS\<close>, \<open>t\<close> the clock.\<close>

definition inQuietHours :: "jsstring \<Rightarrow> int \<Rightarrow> bool" where
  "inQuietHours q t =
     (if q = [] then False
      else (case quietMatch q of
              None \<Rightarrow> False
            | Some (m1, m2) \<Rightarrow>
                (let start = digitsToNumber m1;
                     end' = digitsToNumber m2;
                     h = getUTCHours t
                 in if start \<le> end' then h \<ge> start \<and> h < end'
                    else h \<ge> start \<or> h < end')))"

text \<open>part_000, \<^verbatim>\<open>parseQuietHours\<close> and \<^verbatim>\<open>isQuietNowUtc\<close>.\<close>

definition parseQuietHours :: "jsstring \<Rightarrow> (nat \<times> nat) option" where
  "parseQuietHours spec =
     (case quietMatch spec of
        None \<Rightarrow> None
      | Some (m1, m2) \<Rightarrow>
          Some (min 23 (max 0 (digitsToNumber m1)), min 23 (max 0 (digitsToNumber m2))))"

definition isQuietNowUtc :: "jsstring \<Rightarrow> int \<Rightarrow> bool" where
  "isQuietNowUtc q t =
     (case parseQuietHours q of
        None \<Rightarrow> False
      | Some (start, end') \<Rightarrow>
          (let h = getUTCHours t
           in if start = end' then False
              else if start < end' then h \<ge> start \<and> h < end'
              else h \<ge> start \<or> h < end'))"

section \<open>Content selector\<close>

text \<open>
  A template as the selector sees it. \<open>weight\<close> is \<open>None\<close> when the property is
  missing (null or undefined), so that a missing weight and an explicit 0 differ.
  Numbers are real; a NaN weight, which \<^verbatim>\<open>|| 0\<close> turns into 0, is \<open>Some 0\<close>.
\<close>

record template =
  tpl_id :: jsstring
  weight :: "real option"
  body :: jsstring

text \<open>index.js: \<^verbatim>\<open>Math.max(0, Number(it[weightKey] ?? 1) || 0)\<close>.\<close>

definition weightOf :: "template \<Rightarrow> real" where
  "weightOf it =
     (let n = (case weight it of None \<Rightarrow> 1 | Some w \<Rightarrow> w)
      in max 0 (if n = 0 then 0 else n))"

text \<open>
  The loop of both revisions: subtract each weight from \<open>r\<close> and return the first item
  at which the remainder is not positive; \<open>None\<close> when the loop runs off the end.
\<close>

fun walk :: "real \<Rightarrow> (template \<times> real) list \<Rightarrow> template option" where
  "walk r [] = None"
| "walk r ((it, w) # rest) = (let r' = r - w in if r' \<le> 0 then Some it else walk r' rest)"

text \<open>
  index.js, \<^verbatim>\<open>pickWeighted\<close>. \<open>items\<close> may hold falsy entries (\<open>None\<close>), which
  \<^verbatim>\<open>filter(Boolean)\<close> drops; \<open>u\<close> is the value of the one \<^verbatim>\<open>Math.random()\<close> call. The
  result \<open>None\<close> is JavaScript's null (or undefined, for an index out of range).
\<close>

definition pickWeighted :: "template option list \<Rightarrow> real \<Rightarrow> template option" where
  "pickWeighted items u =
     (let list = map the (filter (\<lambda>x. x \<noteq> None) items)
      in if list = [] then None
         else (let weights = map weightOf list;
                   total = foldl (+) 0 weights
               in if total \<le> 0
                  then (let i = \<lfloor>u * real (length list)\<rfloor>
                        in if 0 \<le> i \<and> i < int (length list) then Some (list ! nat i) else None)
                  else (case walk (u * total) (zip list weights) of
                          Some it \<Rightarrow> Some it
                        | None \<Rightarrow> Some (last list))))"

text \<open>part_000, \<^verbatim>\<open>pickWeighted\<close>: every weight is raised to at least 1.\<close>

definition pickWeighted_part0 :: "template list \<Rightarrow> real \<Rightarrow> template option" where
  "pickWeighted_part0 items u =
     (let arr = map (\<lambda>it. (it, max 1 (case weight it of None \<Rightarrow> 1 | Some w \<Rightarrow> w))) items;
          total = foldl (\<lambda>s a. s + snd a) 0 arr
      in (case walk (u * total) arr of
            Some it \<Rightarrow> Some it
          | None \<Rightarrow> if arr \<noteq> [] then Some (fst (last arr)) else None))"

section \<open>Link encoder\<close>

datatype error = StoreError | URIError

text \<open>Characters that \<^verbatim>\<open>encodeURIComponent\<close> leaves as they are.\<close>

definition uriUnreserved :: "jschar \<Rightarrow> bool" where
  "uriUnreserved c =
     ((0x61 \<le> c \<and> c \<le> 0x7A) \<or> (0x41 \<le> c \<and> c \<le> 0x5A) \<or> (0x30 \<le> c \<and> c \<le> 0x39) \<or>
      c \<in> {0x2D, 0x5F, 0x2E, 0x21, 0x7E, 0x2A, 0x27, 0x28, 0x29})"

definition hexChar :: "nat \<Rightarrow> jschar" where
  "hexChar d = of_nat (if d < 10 then 48 + d else 55 + d)"

definition pctByte :: "nat \<Rightarrow> jsstring" where
  "pctByte b = [0x25, hexChar (b div 16), hexChar (b mod 16)]"

text \<open>The UTF-8 bytes of a code point.\<close>

definition utf8 :: "nat \<Rightarrow> nat list" where
  "utf8 cp =
     (if cp < 0x80 then [cp]
      else if cp < 0x800 then [0xC0 + cp div 64, 0x80 + cp mod 64]
      else if cp < 0x10000 then [0xE0 + cp div 4096, 0x80 + (cp div 64) mod 64, 0x80 + cp mod 64]
      else [0xF0 + cp div 262144, 0x80 + (cp div 4096) mod 64, 0x80 + (cp div 64) mod 64,
            0x80 + cp mod 64])"

definition isHighSurrogate :: "jschar \<Rightarrow> bool" where
  "isHighSurrogate c = (0xD800 \<le> c \<and> c \<le> 0xDBFF)"

definition isLowSurrogate :: "jschar \<Rightarrow> bool" where
  "isLowSurrogate c = (0xDC00 \<le> c \<and> c \<le> 0xDFFF)"

text \<open>
  \<^verbatim>\<open>encodeURIComponent\<close> (ECMAScript's Encode): unreserved characters are copied, every
  other code point becomes the percent-escapes of its UTF-8 bytes, and a surrogate
  without its partner throws URIError.
\<close>

fun encodeURIComponent :: "jsstring \<Rightarrow> error + jsstring" where
  "encodeURIComponent [] = Inr []"
| "encodeURIComponent (c # cs) =
     (if uriUnreserved c then
        (case encodeURIComponent cs of Inl e \<Rightarrow> Inl e | Inr r \<Rightarrow> Inr (c # r))
      else if isLowSurrogate c then Inl URIError
      else if isHighSurrogate c then
        (case cs of
           [] \<Rightarrow> Inl URIError
         | d # ds \<Rightarrow>
             if \<not> isLowSurrogate d then Inl URIError
             else (case encodeURIComponent ds of
                     Inl e \<Rightarrow> Inl e
                   | Inr r \<Rightarrow>
                       Inr (concat (map pctByte
                              (utf8 ((unat c - 0xD800) * 0x400 + (unat d - 0xDC00) + 0x10000))) @ r)))
      else
        (case encodeURIComponent cs of
           Inl e \<Rightarrow> Inl e
         | Inr r \<Rightarrow> Inr (concat (map pctByte (utf8 (unat c))) @ r)))"

text \<open>
  \<^verbatim>\<open>PROMO_LINK_BASE || `https://t.me/${MAIN_BOT_USERNAME}?start=`\<close>, the same in both
  revisions.
\<close>

definition linkBase :: "env \<Rightarrow> jsstring" where
  "linkBase e =
     (if PROMO_LINK_BASE e \<noteq> [] then PROMO_LINK_BASE e
      else js ''https://t.me/'' @ MAIN_BOT_USERNAME e @ js ''?start='')"

text \<open>
  index.js, \<^verbatim>\<open>buildDeepLink\<close>. \<open>zoneId\<close> is the numeric row id, \<open>templateId\<close> a string.
  \<open>deepLinkToken\<close> is what follows the base: the encoded \<^verbatim>\<open>payload\<close>.
\<close>

definition deepLinkPayload :: "int \<Rightarrow> jsstring \<Rightarrow> jsstring" where
  "deepLinkPayload zoneId templateId =
     js ''pz_'' @ take 8 (intToString 10 zoneId) @ js ''_t_'' @ take 8 templateId"

definition deepLinkToken :: "int \<Rightarrow> jsstring \<Rightarrow> error + jsstring" where
  "deepLinkToken zoneId templateId = encodeURIComponent (deepLinkPayload zoneId templateId)"

definition buildDeepLink :: "env \<Rightarrow> int \<Rightarrow> jsstring \<Rightarrow> error + jsstring" where
  "buildDeepLink e zoneId templateId =
     (case deepLinkToken zoneId templateId of
        Inl err \<Rightarrow> Inl err
      | Inr tok \<Rightarrow> Inr (linkBase e @ tok))"

text \<open>
  part_000, \<^verbatim>\<open>buildDeepLink\<close>; \<open>now\<close> is the value of \<^verbatim>\<open>nowMs()\<close>.
  \<open>deepLinkToken_part0\<close> is the \<^verbatim>\<open>payload\<close>.
\<close>

definition deepLinkToken_part0 :: "int \<Rightarrow> int \<Rightarrow> jsstring \<Rightarrow> jsstring" where
  "deepLinkToken_part0 now zoneId templateId =
     (let t0 = take 10 (filter idSafe (if templateId = [] then js ''t'' else templateId));
          t = (if t0 = [] then js ''t'' else t0);
          ts = sliceLast 6 (intToString 36 now)
      in take 64 (js ''p'' @ intToString 10 zoneId @ js ''t'' @ t @ js ''_'' @ ts))"

definition buildDeepLink_part0 :: "env \<Rightarrow> int \<Rightarrow> int \<Rightarrow> jsstring \<Rightarrow> jsstring" where
  "buildDeepLink_part0 e now zoneId templateId =
     linkBase e @ deepLinkToken_part0 now zoneId templateId"

section \<open>Store and engine state\<close>

text \<open>
  A row of \<^verbatim>\<open>promo_zones\<close>. Nullable columns are options; \<open>last_posted_at\<close> is the
  timestamp in milliseconds since the epoch, as \<^verbatim>\<open>new Date(...).getTime()\<close> reads it.
\<close>

record zone =
  zid :: int
  telegram_chat_id :: int
  is_enabled :: bool
  min_gap_minutes :: "int option"
  daily_cap :: "int option"
  fail_count :: "int option"
  last_error :: "jsstring option"
  last_posted_at :: "int option"

datatype status = Success | Failed

text \<open>
  A row of \<^verbatim>\<open>promo_posts\<close>, with the columns that the engine reads back or that carry
  the attempt (the alias columns of index.js repeat these values). The minimal
  fallback insert of index.js has no chat id and no link.
\<close>

record post =
  promo_zone_id :: int
  post_chat_id :: "int option"
  template_id :: jsstring
  deep_link :: "jsstring option"
  post_status :: status
  post_error :: "jsstring option"
  created_at :: int

datatype diag = LogInsertError | LogInsertError2 | FailedSend | AutoDisabled | CycleError

text \<open>
  What the engine does to the outside, in order: a \<^verbatim>\<open>sendMessage\<close> call (zone id, chat
  id, time of the call, whether the platform accepted it), an insert into
  \<^verbatim>\<open>promo_posts\<close> (whether it was stored), a diagnostic line on the console.
\<close>

datatype event =
    SendMessage int int int bool
  | Insert bool
  | Console diag

text \<open>
  The two tables, the module variable \<^verbatim>\<open>lastGlobalPostAt\<close>, and the observable
  trace of the calls made so far.
\<close>

record state =
  zones :: "zone list"
  posts :: "post list"
  lastGlobalPostAt :: int
  trace :: "event list"

definition emit :: "event list \<Rightarrow> state \<Rightarrow> state" where
  "emit evs st = st\<lparr>trace := trace st @ evs\<rparr>"

text \<open>
  \<^verbatim>\<open>supabase.from('promo_zones').update(...).eq('id', i)\<close>. The code never looks at the
  result of such an update; the model lets it take effect.
\<close>

definition updateZones :: "int \<Rightarrow> (zone \<Rightarrow> zone) \<Rightarrow> state \<Rightarrow> state" where
  "updateZones i f st = st\<lparr>zones := map (\<lambda>z. if zid z = i then f z else z) (zones st)\<rparr>"

text \<open>\<^verbatim>\<open>startUtc\<close>: midnight UTC of the day of the clock reading \<open>t\<close>.\<close>

definition startOfUtcDay :: "int \<Rightarrow> int" where
  "startOfUtcDay t = t - t mod 86400000"

definition todaySuccessRows :: "int \<Rightarrow> int \<Rightarrow> post list \<Rightarrow> post list" where
  "todaySuccessRows t chatId ps =
     filter (\<lambda>p. post_chat_id p = Some chatId \<and> post_status p = Success \<and>
                 created_at p \<ge> startOfUtcDay t) ps"

text \<open>\<^verbatim>\<open>error ? String(error).slice(0, 800) : null\<close>; the empty string is falsy.\<close>

definition errorText :: "jsstring option \<Rightarrow> jsstring option" where
  "errorText err =
     (case err of None \<Rightarrow> None | Some m \<Rightarrow> if m = [] then None else Some (take 800 m))"

text \<open>
  \<^verbatim>\<open>incrementFailCount\<close>, the same in both revisions. \<open>read_err\<close> is a failure of the
  select; \<^verbatim>\<open>.single()\<close> also reports an error unless exactly one row matches.
\<close>

definition incrementFailCount :: "bool \<Rightarrow> int \<Rightarrow> state \<Rightarrow> state" where
  "incrementFailCount read_err zoneId st =
     (if read_err then st
      else (case filter (\<lambda>z. zid z = zoneId) (zones st) of
              [data] \<Rightarrow>
                (let next = num_or (fail_count data) 0 + 1
                 in updateZones zoneId (\<lambda>z. z\<lparr>fail_count := Some next\<rparr>) st)
            | _ \<Rightarrow> st))"

text \<open>\<^verbatim>\<open>updateZonePosted\<close>, the same in both revisions; \<open>t\<close> is \<^verbatim>\<open>isoNow()\<close>.\<close>

definition updateZonePosted :: "int \<Rightarrow> int \<Rightarrow> state \<Rightarrow> state" where
  "updateZonePosted t zoneId st =
     updateZones zoneId (\<lambda>z. z\<lparr>last_posted_at := Some t, last_error := None\<rparr>) st"

text \<open>
  The local constants \<^verbatim>\<open>minGap\<close> and \<^verbatim>\<open>dailyCap\<close>, computed by the same expressions in
  \<^verbatim>\<open>postToZone\<close> (index.js) and in \<^verbatim>\<open>isEligibleByGap\<close> and \<^verbatim>\<open>attemptOnePost\<close>
  (part_000): \<^verbatim>\<open>Math.max(1, Number(zone.min_gap_minutes || DEFAULT_MIN_GAP_MINUTES))\<close> and
  \<^verbatim>\<open>Math.max(1, Number(zone.daily_cap || DEFAULT_DAILY_CAP))\<close>.
\<close>

definition minGap :: "env \<Rightarrow> zone \<Rightarrow> int" where
  "minGap e zone = max 1 (num_or (min_gap_minutes zone) (DEFAULT_MIN_GAP_MINUTES e))"

definition dailyCap :: "env \<Rightarrow> zone \<Rightarrow> int" where
  "dailyCap e zone = max 1 (num_or (daily_cap zone) (DEFAULT_DAILY_CAP e))"

section \<open>The cycle of index.js\<close>

text \<open>
  Everything one cycle takes from outside: the clock at each place that reads it, the
  outcome of each store call that can fail, the two random draws, the templates that
  \<^verbatim>\<open>fetchEnabledTemplates\<close> returns, and the answer of the messaging platform
  (\<open>None\<close>: accepted; \<open>Some msg\<close>: rejected with that message). The rendered text of
  the message is not modelled.
\<close>

record io =
  t_quiet :: int
  fetch_err :: bool
  rnd_zone :: nat
  t_now :: int
  t_count :: int
  count_err :: bool
  templates :: "template option list"
  rnd_tpl :: real
  t_send :: int
  send_result :: "jsstring option"
  t_log :: int
  ins_err1 :: bool
  ins_err2 :: bool
  t_posted :: int
  fc_read_err :: bool

definition fetchZones :: "io \<Rightarrow> state \<Rightarrow> error + zone list" where
  "fetchZones i st = (if fetch_err i then Inl StoreError else Inr (filter is_enabled (zones st)))"

definition countTodaySuccessPosts :: "io \<Rightarrow> int \<Rightarrow> state \<Rightarrow> error + int" where
  "countTodaySuccessPosts i chatId st =
     (if count_err i then Inl StoreError
      else Inr (int (length (todaySuccessRows (t_count i) chatId (posts st)))))"

definition logPostAttempt ::
  "io \<Rightarrow> int \<Rightarrow> int \<Rightarrow> jsstring \<Rightarrow> jsstring \<Rightarrow> status \<Rightarrow> jsstring option \<Rightarrow> state \<Rightarrow> state" where
  "logPostAttempt i zoneId chatId templateId deepLink st_status err st =
     (let now = t_log i;
          payload = \<lparr>promo_zone_id = zoneId, post_chat_id = Some chatId,
                     template_id = templateId, deep_link = Some deepLink,
                     post_status = st_status, post_error = errorText err, created_at = now\<rparr>;
          minimal = \<lparr>promo_zone_id = zoneId, post_chat_id = None,
                     template_id = templateId, deep_link = None,
                     post_status = st_status, post_error = errorText err, created_at = now\<rparr>
      in if \<not> ins_err1 i then emit [Insert True] (st\<lparr>posts := posts st @ [payload]\<rparr>)
         else (let st1 = emit [Insert False, Console LogInsertError] st
               in if \<not> ins_err2 i
                  then emit [Insert True] (st1\<lparr>posts := posts st1 @ [minimal]\<rparr>)
                  else emit [Insert False, Console LogInsertError2] st1))"

text \<open>The per-zone cooldown test of \<^verbatim>\<open>postToZone\<close>.\<close>

definition cooldownActive :: "env \<Rightarrow> int \<Rightarrow> zone \<Rightarrow> bool" where
  "cooldownActive e now zone =
     (case last_posted_at zone of
        None \<Rightarrow> False
      | Some last_ms \<Rightarrow> now - last_ms < minGap e zone * 60 * 1000)"

text \<open>The rest of the \<^verbatim>\<open>try\<close> block of \<^verbatim>\<open>postToZone\<close>, once \<^verbatim>\<open>sendMessage\<close> has resolved.\<close>

definition sendSucceeded :: "io \<Rightarrow> zone \<Rightarrow> template \<Rightarrow> jsstring \<Rightarrow> state \<Rightarrow> state" where
  "sendSucceeded i zone tpl deepLink st =
     (let chatId = telegram_chat_id zone;
          st1 = emit [SendMessage (zid zone) chatId (t_send i) True] st;
          st2 = logPostAttempt i (zid zone) chatId (tpl_id tpl) deepLink Success None st1;
          st3 = updateZonePosted (t_posted i) (zid zone) st2
      in st3\<lparr>lastGlobalPostAt := t_now i\<rparr>)"

text \<open>The \<^verbatim>\<open>catch\<close> block of \<^verbatim>\<open>postToZone\<close>; \<open>msg\<close> is the error message.\<close>

definition sendFailed :: "env \<Rightarrow> io \<Rightarrow> zone \<Rightarrow> template \<Rightarrow> jsstring \<Rightarrow> jsstring \<Rightarrow> state \<Rightarrow> state" where
  "sendFailed e i zone tpl deepLink msg st =
     (let chatId = telegram_chat_id zone;
          st1 = emit [SendMessage (zid zone) chatId (t_send i) False, Console FailedSend] st;
          st2 = logPostAttempt i (zid zone) chatId (tpl_id tpl) deepLink Failed (Some msg) st1;
          st3 = updateZones (zid zone) (\<lambda>z. z\<lparr>last_error := Some (take 500 msg)\<rparr>) st2;
          st4 = incrementFailCount (fc_read_err i) (zid zone) st3;
          fail = num_or (fail_count zone) 0 + 1;
          autoDisableAfter = max 0 (env_num (env_AUTO_DISABLE_AFTER e) 0)
      in if autoDisableAfter > 0 \<and> fail \<ge> autoDisableAfter
         then emit [Console AutoDisabled]
                (updateZones (zid zone) (\<lambda>z. z\<lparr>is_enabled := False\<rparr>) st4)
         else st4)"

definition postToZone :: "env \<Rightarrow> io \<Rightarrow> zone \<Rightarrow> state \<Rightarrow> error + state" where
  "postToZone e i zone st =
     (if t_now i - lastGlobalPostAt st < GLOBAL_MIN_GAP_SECONDS e * 1000 then Inr st
      else if cooldownActive e (t_now i) zone then Inr st
      else (case countTodaySuccessPosts i (telegram_chat_id zone) st of
              Inl err \<Rightarrow> Inl err
            | Inr todayCount \<Rightarrow>
                if todayCount \<ge> dailyCap e zone then Inr st
                else (case pickWeighted (templates i) (rnd_tpl i) of
                        None \<Rightarrow> Inr st
                      | Some tpl \<Rightarrow>
                          (case buildDeepLink e (zid zone) (tpl_id tpl) of
                             Inl err \<Rightarrow> Inl err
                           | Inr deepLink \<Rightarrow>
                               (case send_result i of
                                  None \<Rightarrow> Inr (sendSucceeded i zone tpl deepLink st)
                                | Some msg \<Rightarrow> Inr (sendFailed e i zone tpl deepLink msg st))))))"

text \<open>
  \<^verbatim>\<open>promoCycle\<close>. The shuffled copy of the enabled zones starts with one of them,
  \<open>zs ! (rnd_zone i mod length zs)\<close>, and the loop breaks after it. An exception thrown
  below is caught and reported; it is thrown before any write.
\<close>

definition promoCycle :: "env \<Rightarrow> io \<Rightarrow> state \<Rightarrow> state" where
  "promoCycle e i st =
     (if inQuietHours (QUIET_HOURS e) (t_quiet i) then st
      else (case fetchZones i st of
              Inl err \<Rightarrow> emit [Console CycleError] st
            | Inr zs \<Rightarrow>
                if zs = [] then st
                else (case postToZone e i (zs ! (rnd_zone i mod length zs)) st of
                        Inl err \<Rightarrow> emit [Console CycleError] st
                      | Inr st' \<Rightarrow> st')))"


section \<open>The cycle of part_000\<close>

record io_part0 =
  p_t_quiet :: int
  p_t_now :: int
  p_fetch_err :: bool
  p_t_gap :: "nat \<Rightarrow> int"
  p_t_count :: int
  p_count_err :: bool
  p_tpl_err :: bool
  p_templates :: "template list"
  p_rnd_tpl :: real
  p_t_link :: int
  p_t_send :: int
  p_send_result :: "jsstring option"
  p_ins_err :: bool
  p_t_created :: int
  p_t_posted :: int
  p_t_global :: int
  p_fc_read_err :: bool

text \<open>
  \<^verbatim>\<open>fetchZonesCandidateBatch\<close>: enabled rows, oldest \<open>last_posted_at\<close> first with nulls
  first (\<open>None < Some t\<close>), at most \<open>limit\<close> of them. Rows with equal keys keep the
  order of the table.
\<close>

definition fetchZonesCandidateBatch :: "io_part0 \<Rightarrow> nat \<Rightarrow> state \<Rightarrow> error + zone list" where
  "fetchZonesCandidateBatch i limit st =
     (if p_fetch_err i then Inl StoreError
      else Inr (take limit (sort_key last_posted_at (filter is_enabled (zones st)))))"

text \<open>\<^verbatim>\<open>isEligibleByGap\<close>; \<open>now\<close> is the value of \<^verbatim>\<open>nowMs()\<close>.\<close>

definition isEligibleByGap :: "env \<Rightarrow> int \<Rightarrow> zone \<Rightarrow> bool" where
  "isEligibleByGap e now zone =
     (case last_posted_at zone of
        None \<Rightarrow> True
      | Some last_ms \<Rightarrow>
          (let minsSince = real_of_int (now - last_ms) / 60000
           in minsSince \<ge> real_of_int (minGap e zone)))"

text \<open>
  \<^verbatim>\<open>zones.find(z => isEligibleByGap(z))\<close>; the \<open>k\<close>-th row examined reads the clock
  as \<open>clk k\<close>.
\<close>

fun findEligible :: "env \<Rightarrow> (nat \<Rightarrow> int) \<Rightarrow> nat \<Rightarrow> zone list \<Rightarrow> zone option" where
  "findEligible e clk k [] = None"
| "findEligible e clk k (z # zs) =
     (if isEligibleByGap e (clk k) z then Some z else findEligible e clk (Suc k) zs)"

definition countTodaySuccessPosts_part0 :: "io_part0 \<Rightarrow> int \<Rightarrow> state \<Rightarrow> error + int" where
  "countTodaySuccessPosts_part0 i chatId st =
     (if p_count_err i then Inl StoreError
      else Inr (int (length (todaySuccessRows (p_t_count i) chatId (posts st)))))"

text \<open>
  \<^verbatim>\<open>logPostAttempt\<close> of part_000: one insert whose result is dropped; the row gets the
  database's own \<^verbatim>\<open>created_at\<close>.
\<close>

definition logPostAttempt_part0 ::
  "io_part0 \<Rightarrow> int \<Rightarrow> int \<Rightarrow> jsstring \<Rightarrow> jsstring \<Rightarrow> status \<Rightarrow> jsstring option \<Rightarrow> state \<Rightarrow> state" where
  "logPostAttempt_part0 i zoneId chatId templateId deepLink st_status err st =
     (let row = \<lparr>promo_zone_id = zoneId, post_chat_id = Some chatId,
                 template_id = templateId, deep_link = Some deepLink,
                 post_status = st_status, post_error = errorText err,
                 created_at = p_t_created i\<rparr>
      in if \<not> p_ins_err i then emit [Insert True] (st\<lparr>posts := posts st @ [row]\<rparr>)
         else emit [Insert False] st)"

text \<open>The rest of the \<^verbatim>\<open>try\<close> block of \<^verbatim>\<open>attemptOnePost\<close>, after \<^verbatim>\<open>sendMessage\<close>.\<close>

definition sendSucceeded_part0 ::
  "io_part0 \<Rightarrow> zone \<Rightarrow> template \<Rightarrow> jsstring \<Rightarrow> state \<Rightarrow> state" where
  "sendSucceeded_part0 i zone tpl deepLink st =
     (let chatId = telegram_chat_id zone;
          st1 = emit [SendMessage (zid zone) chatId (p_t_send i) True] st;
          st2 = logPostAttempt_part0 i (zid zone) chatId (tpl_id tpl) deepLink Success None st1;
          st3 = updateZonePosted (p_t_posted i) (zid zone) st2
      in st3\<lparr>lastGlobalPostAt := p_t_global i\<rparr>)"

text \<open>The \<^verbatim>\<open>catch\<close> block of \<^verbatim>\<open>attemptOnePost\<close>.\<close>

definition sendFailed_part0 ::
  "env \<Rightarrow> io_part0 \<Rightarrow> zone \<Rightarrow> template \<Rightarrow> jsstring \<Rightarrow> jsstring \<Rightarrow> state \<Rightarrow> state" where
  "sendFailed_part0 e i zone tpl deepLink msg st =
     (let chatId = telegram_chat_id zone;
          st1 = emit [SendMessage (zid zone) chatId (p_t_send i) False, Console FailedSend] st;
          st2 = logPostAttempt_part0 i (zid zone) chatId (tpl_id tpl) deepLink
                  Failed (Some msg) st1;
          st3 = updateZones (zid zone) (\<lambda>z. z\<lparr>last_error := Some (take 500 msg)\<rparr>) st2;
          st4 = incrementFailCount (p_fc_read_err i) (zid zone) st3;
          failCount = num_or (fail_count zone) 0 + 1;
          AUTO_DISABLE_AFTER = max 3 (env_num (env_AUTO_DISABLE_AFTER e) 5)
      in if failCount \<ge> AUTO_DISABLE_AFTER
         then emit [Console AutoDisabled]
                (updateZones (zid zone) (\<lambda>z. z\<lparr>is_enabled := False\<rparr>) st4)
         else st4)"

definition attemptOnePost :: "env \<Rightarrow> io_part0 \<Rightarrow> state \<Rightarrow> error + state" where
  "attemptOnePost e i st =
     (if isQuietNowUtc (QUIET_HOURS e) (p_t_quiet i) then Inr st
      else if p_t_now i - lastGlobalPostAt st < GLOBAL_MIN_GAP_SECONDS e * 1000 then Inr st
      else (case fetchZonesCandidateBatch i 75 st of
              Inl err \<Rightarrow> Inl err
            | Inr zs \<Rightarrow>
      if zs = [] then Inr st
      else (case findEligible e (p_t_gap i) 0 zs of
              None \<Rightarrow> Inr st
            | Some zone \<Rightarrow>
      (case countTodaySuccessPosts_part0 i (telegram_chat_id zone) st of
         Inl err \<Rightarrow> Inl err
       | Inr todayCount \<Rightarrow>
      if todayCount \<ge> dailyCap e zone then Inr st
      else if p_tpl_err i then Inl StoreError
      else (case pickWeighted_part0 (p_templates i) (p_rnd_tpl i) of
              None \<Rightarrow> Inr st
            | Some tpl \<Rightarrow>
      (let deepLink = buildDeepLink_part0 e (p_t_link i) (zid zone) (tpl_id tpl)
       in case p_send_result i of
            None \<Rightarrow> Inr (sendSucceeded_part0 i zone tpl deepLink st)
          | Some msg \<Rightarrow> Inr (sendFailed_part0 e i zone tpl deepLink msg st)))))))"

text \<open>The \<^verbatim>\<open>try\<close>/\<^verbatim>\<open>catch\<close> around the cycle in \<^verbatim>\<open>tick\<close>.\<close>

definition tickCycle :: "env \<Rightarrow> io_part0 \<Rightarrow> state \<Rightarrow> state" where
  "tickCycle e i st =
     (case attemptOnePost e i st of
        Inl err \<Rightarrow> emit [Console CycleError] st
      | Inr st' \<Rightarrow> st')"


section \<open>The scheduler of index.js\<close>

text \<open>
  JavaScript runs one callback at a time, up to its next \<^verbatim>\<open>await\<close>, so the scheduler's
  variables change only in the steps below; the cycle itself reads and writes none of
  them. The state holds the two module variables \<^verbatim>\<open>shuttingDown\<close> and \<^verbatim>\<open>cycleTimer\<close> (the
  handle of the timer set last), the timers that are set and have neither fired nor been
  cleared, the next fresh handle, and the number of calls of \<^verbatim>\<open>promoCycle\<close> that have not
  returned yet. The delay of a timer is left out: a pending timer may fire at any time.
\<close>

record sched =
  shuttingDown :: bool
  cycleTimer :: "nat option"
  pendingTimers :: "nat set"
  nextHandle :: nat
  inFlight :: nat

definition clearTimeout :: "nat \<Rightarrow> sched \<Rightarrow> sched" where
  "clearTimeout h s = s\<lparr>pendingTimers := pendingTimers s - {h}\<rparr>"

text \<open>
  \<^verbatim>\<open>scheduleNextCycle\<close>: nothing after shutdown; otherwise the timer set last is
  cleared and a new one is set, whose callback is \<open>timerFires\<close> and then \<open>cycleReturns\<close>.
\<close>

definition scheduleNextCycle :: "sched \<Rightarrow> sched" where
  "scheduleNextCycle s =
     (if shuttingDown s then s
      else
        let s1 = (case cycleTimer s of None \<Rightarrow> s | Some h \<Rightarrow> clearTimeout h s);
            h' = nextHandle s1
        in s1\<lparr>pendingTimers := insert h' (pendingTimers s1),
               nextHandle := h' + 1,
               cycleTimer := Some h'\<rparr>)"

text \<open>
  The callback of timer \<open>h\<close> starts: it calls \<^verbatim>\<open>promoCycle\<close>, which runs to its first
  \<^verbatim>\<open>await\<close>. And \<^verbatim>\<open>promoCycle\<close> returns to the callback, whose \<^verbatim>\<open>finally\<close> block calls
  \<^verbatim>\<open>scheduleNextCycle(false)\<close>.
\<close>

definition timerFires :: "nat \<Rightarrow> sched \<Rightarrow> sched option" where
  "timerFires h s =
     (if h \<in> pendingTimers s
      then Some (s\<lparr>pendingTimers := pendingTimers s - {h}, inFlight := inFlight s + 1\<rparr>)
      else None)"

definition cycleReturns :: "sched \<Rightarrow> sched option" where
  "cycleReturns s =
     (if inFlight s > 0 then Some (scheduleNextCycle (s\<lparr>inFlight := inFlight s - 1\<rparr>))
      else None)"

text \<open>\<^verbatim>\<open>shutdown\<close>, the handler of SIGINT and SIGTERM.\<close>

definition shutdown :: "sched \<Rightarrow> sched" where
  "shutdown s =
     (if shuttingDown s then s
      else
        let s1 = s\<lparr>shuttingDown := True\<rparr>
        in (case cycleTimer s1 of None \<Rightarrow> s1 | Some h \<Rightarrow> clearTimeout h s1))"

datatype sched_event = TimerFires nat | CycleReturns | Signal

fun schedStep :: "sched_event \<Rightarrow> sched \<Rightarrow> sched option" where
  "schedStep (TimerFires h) s = timerFires h s"
| "schedStep CycleReturns s = cycleReturns s"
| "schedStep Signal s = Some (shutdown s)"

fun schedRun :: "sched_event list \<Rightarrow> sched \<Rightarrow> sched option" where
  "schedRun [] s = Some s"
| "schedRun (ev # evs) s =
     (case schedStep ev s of None \<Rightarrow> None | Some s' \<Rightarrow> schedRun evs s')"

text \<open>
  The state when the start-up code has called \<^verbatim>\<open>scheduleNextCycle(true)\<close>, its only call
  outside the timer's callback; \<open>b\<close> tells whether a signal has arrived before.
\<close>

definition schedStart :: "bool \<Rightarrow> sched" where
  "schedStart b =
     scheduleNextCycle \<lparr>shuttingDown = b, cycleTimer = None, pendingTimers = {},
                        nextHandle = 0, inFlight = 0\<rparr>"

section \<open>The scheduler of part_000\<close>

text \<open>
  The state holds the module variable \<^verbatim>\<open>cycleInFlight\<close>, the number of pending timers
  of \<^verbatim>\<open>tick\<close> (their handles are not kept), the numbers of calls of \<^verbatim>\<open>attemptOnePost\<close>
  that have not returned yet, those made by \<^verbatim>\<open>tick\<close> and those made by the admin command
  \<^verbatim>\<open>postnow\<close>, and whether \<^verbatim>\<open>process.exit\<close> has been called.
\<close>

record sched_part0 =
  cycleInFlight :: bool
  tickTimers :: nat
  tickCycles :: nat
  commandCycles :: nat
  exited :: bool

text \<open>
  \<^verbatim>\<open>tick\<close> up to its \<^verbatim>\<open>await\<close>: the next timer is set first; then the tick returns if a
  cycle is in flight, and otherwise sets the flag and calls \<^verbatim>\<open>attemptOnePost\<close>.
\<close>

definition tick :: "sched_part0 \<Rightarrow> sched_part0" where
  "tick s =
     (let s1 = s\<lparr>tickTimers := tickTimers s + 1\<rparr>
      in if cycleInFlight s1 then s1
         else s1\<lparr>cycleInFlight := True, tickCycles := tickCycles s1 + 1\<rparr>)"

datatype sched_event_part0 = TickFires | TickCycleReturns | PostNow | PostNowReturns | Exit

text \<open>
  A timer of \<^verbatim>\<open>tick\<close> fires; \<^verbatim>\<open>attemptOnePost\<close> returns to \<^verbatim>\<open>tick\<close>, whose \<^verbatim>\<open>finally\<close> block
  resets the flag; an admin sends \<^verbatim>\<open>/postnow\<close>, whose handler calls \<^verbatim>\<open>attemptOnePost\<close>
  without reading or writing the flag; that call returns; and the handler of SIGINT
  and SIGTERM calls \<^verbatim>\<open>process.exit(0)\<close>, after which nothing runs.
\<close>

fun schedStep_part0 :: "sched_event_part0 \<Rightarrow> sched_part0 \<Rightarrow> sched_part0 option" where
  "schedStep_part0 TickFires s =
     (if \<not> exited s \<and> tickTimers s > 0 then Some (tick (s\<lparr>tickTimers := tickTimers s - 1\<rparr>))
      else None)"
| "schedStep_part0 TickCycleReturns s =
     (if \<not> exited s \<and> tickCycles s > 0
      then Some (s\<lparr>cycleInFlight := False, tickCycles := tickCycles s - 1\<rparr>)
      else None)"
| "schedStep_part0 PostNow s =
     (if \<not> exited s then Some (s\<lparr>commandCycles := commandCycles s + 1\<rparr>) else None)"
| "schedStep_part0 PostNowReturns s =
     (if \<not> exited s \<and> commandCycles s > 0
      then Some (s\<lparr>commandCycles := commandCycles s - 1\<rparr>)
      else None)"
| "schedStep_part0 Exit s = (if \<not> exited s then Some (s\<lparr>exited := True\<rparr>) else None)"

fun schedRun_part0 :: "sched_event_part0 list \<Rightarrow> sched_part0 \<Rightarrow> sched_part0 option" where
  "schedRun_part0 [] s = Some s"
| "schedRun_part0 (ev # evs) s =
     (case schedStep_part0 ev s of None \<Rightarrow> None | Some s' \<Rightarrow> schedRun_part0 evs s')"

text \<open>\<^verbatim>\<open>startScheduler\<close> calls \<^verbatim>\<open>tick\<close> once.\<close>

definition startScheduler :: sched_part0 where
  "startScheduler =
     tick \<lparr>cycleInFlight = False, tickTimers = 0, tickCycles = 0, commandCycles = 0,
           exited = False\<rparr>"

section \<open>The scheduler of the second copy in index.js\<close>

text \<open>
  The second copy of the engine in \<^verbatim>\<open>src/index.js\<close> starts its cycles with
  \<^verbatim>\<open>setInterval(promoCycle, ...)\<close> and once with \<^verbatim>\<open>setTimeout(promoCycle, 2000)\<close>, and has no
  variable that tells whether a cycle is running. The state holds whether the one-shot
  timer is pending and the number of calls of \<^verbatim>\<open>promoCycle\<close> that have not returned yet.
\<close>

record sched_interval =
  bootTimer :: bool
  running :: nat

datatype sched_event_interval = IntervalFires | BootTimerFires | IntervalCycleReturns

fun schedStep_interval ::
  "sched_event_interval \<Rightarrow> sched_interval \<Rightarrow> sched_interval option" where
  "schedStep_interval IntervalFires s = Some (s\<lparr>running := running s + 1\<rparr>)"
| "schedStep_interval BootTimerFires s =
     (if bootTimer s then Some (s\<lparr>bootTimer := False, running := running s + 1\<rparr>) else None)"
| "schedStep_interval IntervalCycleReturns s =
     (if running s > 0 then Some (s\<lparr>running := running s - 1\<rparr>) else None)"

fun schedRun_interval ::
  "sched_event_interval list \<Rightarrow> sched_interval \<Rightarrow> sched_interval option" where
  "schedRun_interval [] s = Some s"
| "schedRun_interval (ev # evs) s =
     (case schedStep_interval ev s of None \<Rightarrow> None | Some s' \<Rightarrow> schedRun_interval evs s')"

definition schedStart_interval :: sched_interval where
  "schedStart_interval = \<lparr>bootTimer = True, running = 0\<rparr>"

section \<open>The specification's quiet window\<close>

text \<open>
  The window as the specification words it, for a start hour, an end hour and the
  current hour: the half-open interval when start is before end, the interval that wraps
  midnight when start is after end, and no hour at all when the two are equal.
\<close>

definition quietWindow_spec :: "nat \<Rightarrow> nat \<Rightarrow> nat \<Rightarrow> bool" where
  "quietWindow_spec start end' h =
     (if start < end' then start \<le> h \<and> h < end'
      else if start > end' then h \<ge> start \<or> h < end'
      else False)"

section \<open>Notions used to state the properties of a cycle\<close>

text \<open>
  The events a cycle appends to the trace; the insert calls and diagnostics of one
  \<open>logPostAttempt\<close> in each revision; and the effect of an update by id on one row.
\<close>

definition newEvents :: "state \<Rightarrow> state \<Rightarrow> event list" where
  "newEvents st st' = drop (length (trace st)) (trace st')"

definition logEvents :: "io \<Rightarrow> event list" where
  "logEvents i =
     (if \<not> ins_err1 i then [Insert True]
      else if \<not> ins_err2 i then [Insert False, Console LogInsertError, Insert True]
      else [Insert False, Console LogInsertError, Insert False, Console LogInsertError2])"

definition logEvents_part0 :: "io_part0 \<Rightarrow> event list" where
  "logEvents_part0 i = [Insert (\<not> p_ins_err i)]"

definition onRow :: "int \<Rightarrow> (zone \<Rightarrow> zone) \<Rightarrow> zone \<Rightarrow> zone" where
  "onRow k f z = (if zid z = k then f z else z)"

text \<open>
  The tests a destination has passed when \<^verbatim>\<open>sendMessage\<close> is called for it, in index.js
  and in part_000 (where the gap is tested at one of the clock readings of the search).
\<close>

definition gateOpen :: "env \<Rightarrow> io \<Rightarrow> state \<Rightarrow> zone \<Rightarrow> bool" where
  "gateOpen e i st zone =
     (zone \<in> set (zones st) \<and> is_enabled zone
      \<and> \<not> inQuietHours (QUIET_HOURS e) (t_quiet i)
      \<and> \<not> t_now i - lastGlobalPostAt st < GLOBAL_MIN_GAP_SECONDS e * 1000
      \<and> \<not> cooldownActive e (t_now i) zone
      \<and> \<not> int (length (todaySuccessRows (t_count i) (telegram_chat_id zone) (posts st)))
            \<ge> dailyCap e zone)"

definition gateOpen_part0 :: "env \<Rightarrow> io_part0 \<Rightarrow> state \<Rightarrow> zone \<Rightarrow> bool" where
  "gateOpen_part0 e i st zone =
     (zone \<in> set (zones st) \<and> is_enabled zone
      \<and> \<not> isQuietNowUtc (QUIET_HOURS e) (p_t_quiet i)
      \<and> \<not> p_t_now i - lastGlobalPostAt st < GLOBAL_MIN_GAP_SECONDS e * 1000
      \<and> (\<exists>k. isEligibleByGap e (p_t_gap i k) zone)
      \<and> \<not> int (length (todaySuccessRows (p_t_count i) (telegram_chat_id zone) (posts st)))
            \<ge> dailyCap e zone)"

text \<open>
  The row a failed send with message \<open>msg\<close> leaves behind: the truncated message, the
  count raised by one when \<open>inc\<close> holds, and the row disabled when \<open>dis\<close> holds. And
  whether exactly one row of the table has a given id, which \<^verbatim>\<open>.single()\<close> requires.
\<close>

definition failedRow :: "bool \<Rightarrow> bool \<Rightarrow> jsstring \<Rightarrow> zone \<Rightarrow> zone" where
  "failedRow inc dis msg z =
     z\<lparr>last_error := Some (take 500 msg),
       fail_count := (if inc then Some (num_or (fail_count z) 0 + 1) else fail_count z),
       is_enabled := (if dis then False else is_enabled z)\<rparr>"

definition singleRow :: "int \<Rightarrow> zone list \<Rightarrow> bool" where
  "singleRow k zs = (length (filter (\<lambda>z. zid z = k) zs) = 1)"

text \<open>An insert into the attempt log, and the events that belong to logging an attempt.\<close>

definition isInsert :: "event \<Rightarrow> bool" where
  "isInsert ev = (case ev of Insert ok \<Rightarrow> True | _ \<Rightarrow> False)"

definition isLogging :: "event \<Rightarrow> bool" where
  "isLogging ev = (isInsert ev \<or> ev = Console LogInsertError \<or> ev = Console LogInsertError2)"

text \<open>The state without the attempt log and without the events of logging.\<close>

definition core :: "state \<Rightarrow> zone list \<times> int \<times> event list" where
  "core st = (zones st, lastGlobalPostAt st, filter (\<lambda>ev. \<not> isLogging ev) (trace st))"






text \<open>
  What every reachable state of each scheduler satisfies: in index.js at most one
  cycle runs, no timer is pending while it runs or after a shutdown, one timer is pending
  otherwise, and a pending timer is the one set last; in part_000 the flag counts the
  cycles started by \<^verbatim>\<open>tick\<close> and one timer is pending.
\<close>

definition schedInv :: "sched \<Rightarrow> bool" where
  "schedInv s =
     (inFlight s \<le> 1
      \<and> (inFlight s = 1 \<longrightarrow> pendingTimers s = {})
      \<and> (shuttingDown s \<longrightarrow> pendingTimers s = {})
      \<and> (\<not> shuttingDown s \<and> inFlight s = 0 \<longrightarrow> (\<exists>h. pendingTimers s = {h}))
      \<and> (\<forall>h \<in> pendingTimers s. cycleTimer s = Some h))"

definition schedInv_part0 :: "sched_part0 \<Rightarrow> bool" where
  "schedInv_part0 s =
     (tickCycles s = (if cycleInFlight s then 1 else 0) \<and> tickTimers s = 1)"

section \<open>Example data\<close>


definition tplB :: template where
  "tplB = \<lparr>tpl_id = js ''b'', weight = Some 1, body = []\<rparr>"

definition env0 :: env where
  "env0 = \<lparr>env_GLOBAL_MIN_GAP_SECONDS = None, env_DEFAULT_MIN_GAP_MINUTES = None,
            env_DEFAULT_DAILY_CAP = None, env_AUTO_DISABLE_AFTER = None,
            env_QUIET_HOURS = [], env_PROMO_LINK_BASE = [], env_MAIN_BOT_USERNAME = []\<rparr>"


definition envq :: env where
  "envq = env0\<lparr>env_QUIET_HOURS := js ''abc''\<rparr>"

definition zone0 :: zone where
  "zone0 = \<lparr>zid = 1, telegram_chat_id = 7, is_enabled = True, min_gap_minutes = None,
             daily_cap = Some 0, fail_count = Some 2, last_error = Some (js ''old''),
             last_posted_at = None\<rparr>"


definition state0 :: state where
  "state0 = \<lparr>zones = [zone0], posts = [], lastGlobalPostAt = 0, trace = []\<rparr>"


text \<open>
  The inputs of a cycle, 100 seconds after the epoch, in which every store call works
  and the platform accepts the message, for index.js and for part_000; the same with
  the message rejected; and the same with the first insert into the log failing.
\<close>

definition io0 :: io where
  "io0 = \<lparr>t_quiet = 100000, fetch_err = False, rnd_zone = 0, t_now = 100000,
           t_count = 100000, count_err = False, templates = [Some tplB], rnd_tpl = 1 / 2,
           t_send = 100001, send_result = None, t_log = 100002, ins_err1 = False,
           ins_err2 = False, t_posted = 100003, fc_read_err = False\<rparr>"

definition iop0 :: io_part0 where
  "iop0 = \<lparr>p_t_quiet = 100000, p_t_now = 100000, p_fetch_err = False,
            p_t_gap = (\<lambda>k. 100000), p_t_count = 100000, p_count_err = False,
            p_tpl_err = False, p_templates = [tplB], p_rnd_tpl = 1 / 2, p_t_link = 100000,
            p_t_send = 100001, p_send_result = None, p_ins_err = False, p_t_created = 100002,
            p_t_posted = 100003, p_t_global = 100004, p_fc_read_err = False\<rparr>"

definition blocked :: jsstring where
  "blocked = js ''Forbidden: bot was kicked''"

definition iof :: io where
  "iof = io0\<lparr>send_result := Some blocked\<rparr>"


definition iol :: io where
  "iol = io0\<lparr>ins_err1 := True\<rparr>"




text \<open>Eight euro signs (U+20AC) as a template id, and the token index.js builds from it.\<close>

definition euro8 :: jsstring where
  "euro8 = [0x20AC, 0x20AC, 0x20AC, 0x20AC, 0x20AC, 0x20AC, 0x20AC, 0x20AC]"

definition euroToken :: jsstring where
  "euroToken = js ''pz_1_t_%E2%82%AC%E2%82%AC%E2%82%AC%E2%82%AC%E2%82%AC%E2%82%AC%E2%82%AC%E2%82%AC''"

section \<open>Quiet hours: properties\<close>

lemma quietMatch_2307: "quietMatch (js ''23-07'') = Some (js ''23'', js ''07'')"
  by (simp add: quietMatch_def js_def isDigit_def isSpace_def Let_def)

lemma quietMatch_0909: "quietMatch (js ''09-09'') = Some (js ''09'', js ''09'')"
  by (simp add: quietMatch_def js_def isDigit_def isSpace_def Let_def)

lemma digitsToNumber_examples:
  "digitsToNumber (js ''23'') = 23" "digitsToNumber (js ''07'') = 7"
  "digitsToNumber (js ''09'') = 9"
  by (simp_all add: digitsToNumber_def js_def)

lemma quietMatch_nonempty: "quietMatch q = Some m \<Longrightarrow> q \<noteq> []"
  by (auto simp: quietMatch_def)

lemma quietWindow_alt:
  "quietWindow_spec s e h = (if s \<le> e then h \<ge> s \<and> h < e else h \<ge> s \<or> h < e)"
  "quietWindow_spec s e h =
     (if s = e then False else if s < e then h \<ge> s \<and> h < e else h \<ge> s \<or> h < e)"
  by (auto simp: quietWindow_spec_def)

lemma quietMatch_2024: "quietMatch (js ''20-24'') = Some (js ''20'', js ''24'')"
  by (simp add: quietMatch_def js_def isDigit_def isSpace_def Let_def)

text \<open>
  C6, as amended. For every string that matches \<^verbatim>\<open>HH-HH\<close>, index.js decides quiet hours
  exactly as the specification's window does, with start and end as they are written
  (one or two digits, so up to 99): the interval from start (included) to end (excluded)
  when start is before end, the interval that wraps midnight when start is after end, and
  never when start equals end. part_000 first cuts start and end down to at most 23 and
  then decides in the same way on the cut values.
\<close>

theorem quiet_hours_window:
  assumes "quietMatch q = Some (m1, m2)"
  shows "inQuietHours q t =
           quietWindow_spec (digitsToNumber m1) (digitsToNumber m2) (getUTCHours t)
       \<and> isQuietNowUtc q t =
           quietWindow_spec (min 23 (digitsToNumber m1)) (min 23 (digitsToNumber m2))
             (getUTCHours t)"
proof
  show "inQuietHours q t =
           quietWindow_spec (digitsToNumber m1) (digitsToNumber m2) (getUTCHours t)"
    unfolding quietWindow_alt(1) inQuietHours_def assms Let_def
    using quietMatch_nonempty[OF assms(1)] by simp
  show "isQuietNowUtc q t =
           quietWindow_spec (min 23 (digitsToNumber m1)) (min 23 (digitsToNumber m2))
             (getUTCHours t)"
    unfolding quietWindow_alt(2) isQuietNowUtc_def parseQuietHours_def assms Let_def
    by simp
qed

text \<open>
  The examples of the claim: with \<^verbatim>\<open>23-07\<close> the hours 23, 0 and 6 are quiet and the
  hours 7 and 22 are not; with \<^verbatim>\<open>09-09\<close> hour 9 is not quiet.
\<close>

theorem quiet_hours_window_witness:
  "quietMatch (js ''23-07'') = Some (js ''23'', js ''07'')
   \<and> inQuietHours (js ''23-07'') (23 * 3600000) \<and> isQuietNowUtc (js ''23-07'') (23 * 3600000)
   \<and> inQuietHours (js ''23-07'') 0 \<and> isQuietNowUtc (js ''23-07'') 0
   \<and> inQuietHours (js ''23-07'') (6 * 3600000) \<and> isQuietNowUtc (js ''23-07'') (6 * 3600000)
   \<and> \<not> inQuietHours (js ''23-07'') (7 * 3600000) \<and> \<not> isQuietNowUtc (js ''23-07'') (7 * 3600000)
   \<and> \<not> inQuietHours (js ''23-07'') (22 * 3600000) \<and> \<not> isQuietNowUtc (js ''23-07'') (22 * 3600000)
   \<and> \<not> inQuietHours (js ''09-09'') (9 * 3600000) \<and> \<not> isQuietNowUtc (js ''09-09'') (9 * 3600000)"
  using quiet_hours_window [OF quietMatch_2307, of "23 * 3600000"]
    quiet_hours_window [OF quietMatch_2307, of 0]
    quiet_hours_window [OF quietMatch_2307, of "6 * 3600000"]
    quiet_hours_window [OF quietMatch_2307, of "7 * 3600000"]
    quiet_hours_window [OF quietMatch_2307, of "22 * 3600000"]
    quiet_hours_window [OF quietMatch_0909, of "9 * 3600000"]
  by (simp add: quietMatch_2307 digitsToNumber_examples getUTCHours_def
      quietWindow_spec_def)

text \<open>
  C6 as stated fails in part_000: the string \<^verbatim>\<open>20-24\<close> matches \<^verbatim>\<open>HH-HH\<close> with start before
  end, and hour 23 lies in the window from 20 to 24, yet part_000 does not hold it quiet
  (index.js does).
\<close>

theorem quiet_hours_clamped_counterexample:
  "quietMatch (js ''20-24'') = Some (js ''20'', js ''24'')
   \<and> digitsToNumber (js ''20'') = 20 \<and> digitsToNumber (js ''24'') = 24
   \<and> getUTCHours (23 * 3600000) = 23
   \<and> quietWindow_spec 20 24 23
   \<and> \<not> isQuietNowUtc (js ''20-24'') (23 * 3600000)
   \<and> inQuietHours (js ''20-24'') (23 * 3600000)"
proof -
  have d: "digitsToNumber (js ''20'') = 20" "digitsToNumber (js ''24'') = 24"
    by (simp_all add: digitsToNumber_def js_def)
  have h: "getUTCHours (23 * 3600000) = 23" "getUTCHours 82800000 = 23"
    by (simp_all add: getUTCHours_def)
  have ne: "js ''20-24'' \<noteq> []" by (simp add: js_def)
  have a: "\<not> isQuietNowUtc (js ''20-24'') (23 * 3600000)"
    unfolding isQuietNowUtc_def parseQuietHours_def quietMatch_2024 by (simp add: d h)
  have b: "inQuietHours (js ''20-24'') (23 * 3600000)"
    unfolding inQuietHours_def quietMatch_2024 using ne by (simp add: d h)
  show ?thesis using quietMatch_2024 d h a b by (simp add: quietWindow_spec_def)
qed

section \<open>Effective per-destination limits\<close>






section \<open>Content selector: properties\<close>





















section \<open>Link encoder: properties\<close>

lemma idSafe_digitChar: "d < 36 \<Longrightarrow> idSafe (digitChar d)"
  by (auto simp: idSafe_def digitChar_def word_le_nat_alt unat_of_nat)

lemma idSafe_natToString: "b \<le> 36 \<Longrightarrow> 2 \<le> b \<Longrightarrow> list_all idSafe (natToString b n)"
proof (induction b n rule: natToString.induct)
  case (1 b n)
  show ?case
  proof (cases "n < b")
    case True
    then have "n < 36" using "1.prems" by simp
    then show ?thesis using True by (subst natToString.simps) (simp add: idSafe_digitChar)
  next
    case False
    have "n mod b < 36" using "1.prems" by (meson less_le_trans mod_less_divisor zero_less_numeral le_trans less_le not_le pos2)
    then show ?thesis using False "1.prems" "1.IH"
      by (subst natToString.simps) (simp add: idSafe_digitChar)
  qed
qed


lemma idSafe_unreserved: "idSafe c \<Longrightarrow> uriUnreserved c"
  by (auto simp: idSafe_def uriUnreserved_def)

lemma length_natToString: "2 \<le> b \<Longrightarrow> n < b ^ k \<Longrightarrow> 0 < k \<Longrightarrow> length (natToString b n) \<le> k"
proof (induction b n arbitrary: k rule: natToString.induct)
  case (1 b n)
  show ?case
  proof (cases "n < b")
    case True
    then show ?thesis using "1.prems" by (subst natToString.simps) simp
  next
    case False
    then obtain k' where k: "k = Suc k'" using "1.prems" by (cases k) auto
    have "0 < k'" using False "1.prems" k by (cases k') auto
    moreover have "n div b < b ^ k'" using "1.prems" k
      by (simp add: less_mult_imp_div_less mult.commute)
    ultimately have "length (natToString b (n div b)) \<le> k'"
      using "1.IH"[of k'] False "1.prems" by simp
    then show ?thesis using False "1.prems" k by (subst natToString.simps) simp
  qed
qed

lemma idSafe_js: "idSafe 0x70" "idSafe 0x74" "idSafe 0x5F" "idSafe 0x7A"
  by (simp_all add: idSafe_def)

lemma token_part0_length: "length (deepLinkToken_part0 now zoneId templateId) \<le> 64"
  by (simp add: deepLinkToken_part0_def Let_def del: take_append)

lemma list_all_take: "list_all P xs \<Longrightarrow> list_all P (take n xs)"
  by (auto simp: list_all_iff dest: in_set_takeD)

lemma list_all_drop: "list_all P xs \<Longrightarrow> list_all P (drop n xs)"
  by (auto simp: list_all_iff dest: in_set_dropD)

lemma list_all_filter_same: "list_all P (filter P xs)"
  by (simp add: list_all_iff)

lemma token_part0_safe:
  assumes "0 \<le> zoneId" "0 \<le> now"
  shows "list_all idSafe (deepLinkToken_part0 now zoneId templateId)"
proof -
  have z: "list_all idSafe (intToString 10 zoneId)"
    using assms(1) by (simp add: intToString_def idSafe_natToString)
  have n: "list_all idSafe (sliceLast 6 (intToString 36 now))"
    using assms(2) by (simp add: intToString_def sliceLast_def idSafe_natToString list_all_drop)
  have t: "list_all idSafe (take 10 (filter idSafe x))" for x
    by (rule list_all_take) (rule list_all_filter_same)
  show ?thesis
    unfolding deepLinkToken_part0_def Let_def
    by (rule list_all_take) (simp add: z n t js_def idSafe_js)
qed

lemma length_intToString10:
  assumes "0 \<le> zoneId" "zoneId < 10 ^ 19"
  shows "length (intToString 10 zoneId) \<le> 19"
proof -
  have "nat zoneId < 10 ^ 19" using assms by (simp add: nat_less_iff)
  then show ?thesis using assms(1)
    by (simp add: intToString_def length_natToString)
qed

lemma token_part0_suffix:
  assumes "0 \<le> zoneId" "zoneId < 10 ^ 19"
  shows "\<exists>pre. deepLinkToken_part0 now zoneId templateId = pre @ js ''_'' @ sliceLast 6 (intToString 36 now)"
proof -
  define t0 where "t0 = take 10 (filter idSafe (if templateId = [] then js ''t'' else templateId))"
  define t where "t = (if t0 = [] then js ''t'' else t0)"
  define ts where "ts = sliceLast 6 (intToString 36 now)"
  have lt: "length t \<le> 10" by (simp add: t_def t0_def js_def)
  have lts: "length ts \<le> 6" by (simp add: ts_def sliceLast_def)
  have len: "length (js ''p'' @ intToString 10 zoneId @ js ''t'' @ t @ js ''_'' @ ts) \<le> 64"
    using lt lts length_intToString10[OF assms] by (simp add: js_def)
  have eq: "deepLinkToken_part0 now zoneId templateId =
              take 64 (js ''p'' @ intToString 10 zoneId @ js ''t'' @ t @ js ''_'' @ ts)"
    by (simp only: deepLinkToken_part0_def Let_def t_def t0_def ts_def)
  have "deepLinkToken_part0 now zoneId templateId =
          (js ''p'' @ intToString 10 zoneId @ js ''t'' @ t) @ js ''_'' @ ts"
    unfolding eq take_all[OF len] by simp
  then show ?thesis unfolding ts_def by blast
qed

lemma payload_length: "length (deepLinkPayload zoneId templateId) \<le> 22"
  by (simp add: deepLinkPayload_def js_def)

lemma encode_unreserved: "list_all uriUnreserved s \<Longrightarrow> encodeURIComponent s = Inr s"
  by (induction s) auto

lemma encode_unreserved_append:
  "list_all uriUnreserved s \<Longrightarrow>
   encodeURIComponent (s @ r) = (case encodeURIComponent r of Inl e \<Rightarrow> Inl e | Inr x \<Rightarrow> Inr (s @ x))"
  by (induction s) (auto split: sum.splits)

lemma payload_safe:
  assumes "0 \<le> zoneId" "list_all idSafe (take 8 templateId)"
  shows "list_all idSafe (deepLinkPayload zoneId templateId)"
proof -
  have z: "list_all idSafe (take 8 (intToString 10 zoneId))"
    using assms(1) by (simp add: intToString_def idSafe_natToString list_all_take)
  show ?thesis using z assms(2) by (simp add: deepLinkPayload_def js_def idSafe_js)
qed

lemma token_safe:
  assumes "0 \<le> zoneId" "list_all idSafe (take 8 templateId)"
  shows "deepLinkToken zoneId templateId = Inr (deepLinkPayload zoneId templateId)"
proof -
  have "list_all uriUnreserved (deepLinkPayload zoneId templateId)"
    using payload_safe[OF assms] by (auto simp: list_all_iff idSafe_unreserved)
  then show ?thesis by (simp add: deepLinkToken_def encode_unreserved)
qed

lemma length_pct: "length (concat (map pctByte bs)) = 3 * length bs"
  by (induction bs) (auto simp: pctByte_def)

lemma length_utf8: "length (utf8 cp) \<le> 4" "cp < 0x10000 \<Longrightarrow> length (utf8 cp) \<le> 3"
  by (auto simp: utf8_def)

lemma encode_length: "encodeURIComponent s = Inr r \<Longrightarrow> length r \<le> 9 * length s"
proof (induction s arbitrary: r rule: encodeURIComponent.induct)
  case 1
  then show ?case by simp
next
  case (2 c cs)
  show ?case
  proof (cases "uriUnreserved c")
    case True
    then obtain r' where r': "encodeURIComponent cs = Inr r'" "r = c # r'"
      using "2.prems" by (auto split: sum.splits)
    from "2.IH"(1)[OF True r'(1)] r'(2) show ?thesis by simp
  next
    case nu: False
    show ?thesis
    proof (cases "isLowSurrogate c")
      case True
      then show ?thesis using "2.prems" nu by simp
    next
      case nl: False
      show ?thesis
      proof (cases "isHighSurrogate c")
        case True
        then obtain d ds r' where d: "cs = d # ds" "isLowSurrogate d"
          "encodeURIComponent ds = Inr r'"
          "r = concat (map pctByte (utf8 ((unat c - 0xD800) * 0x400 + (unat d - 0xDC00) + 0x10000))) @ r'"
          using "2.prems" nu nl by (auto split: list.splits sum.splits if_splits)
        have "length r' \<le> 9 * length ds"
          using "2.IH"(2)[OF nu nl True d(1) _ d(3)] d(2) by simp
        then show ?thesis using d length_utf8(1)[of "(unat c - 0xD800) * 0x400 + (unat d - 0xDC00) + 0x10000"]
          by (simp add: length_pct)
      next
        case nh: False
        then obtain r' where r': "encodeURIComponent cs = Inr r'"
          "r = concat (map pctByte (utf8 (unat c))) @ r'"
          using "2.prems" nu nl by (auto split: sum.splits)
        have "unat c < 0x10000" using unsigned_less[of c, where ?'a = nat] by simp
        from length_utf8(2)[OF this] "2.IH"(3)[OF nu nl nh r'(1)] r'(2)
        show ?thesis by (simp add: length_pct)
      qed
    qed
  qed
qed

lemma unreserved_intToString10: "list_all uriUnreserved (intToString 10 zoneId)"
proof -
  have "list_all uriUnreserved (natToString 10 n)" for n
    using idSafe_natToString[of 10 n] by (auto simp: list_all_iff idSafe_unreserved)
  then show ?thesis by (simp add: intToString_def uriUnreserved_def)
qed

lemma token_length_86:
  assumes "deepLinkToken zoneId templateId = Inr tok"
  shows "length tok \<le> 86"
proof -
  define pre where "pre = js ''pz_'' @ take 8 (intToString 10 zoneId) @ js ''_t_''"
  have u: "list_all uriUnreserved pre"
    using unreserved_intToString10[of zoneId]
    by (simp add: pre_def js_def uriUnreserved_def list_all_take)
  have p: "deepLinkPayload zoneId templateId = pre @ take 8 templateId"
    by (simp add: deepLinkPayload_def pre_def)
  from assms obtain r where r: "encodeURIComponent (take 8 templateId) = Inr r" "tok = pre @ r"
    by (auto simp: deepLinkToken_def p encode_unreserved_append[OF u] split: sum.splits)
  have "length r \<le> 72" using encode_length[OF r(1)] by simp
  moreover have "length pre \<le> 14" by (simp add: pre_def js_def)
  ultimately show ?thesis using r(2) by simp
qed

lemma tok_ex1: "deepLinkToken_part0 1700000000000 12 (js ''soft_1'') = js ''p12tsoft_1_yw3v28''"
  by (simp add: deepLinkToken_part0_def Let_def sliceLast_def intToString_def natToString.simps digitChar_def js_def idSafe_def)

lemma tok_ex2: "deepLinkToken_part0 1700000060000 12 (js ''soft_1'') = js ''p12tsoft_1_yw55cw''"
  by (simp add: deepLinkToken_part0_def Let_def sliceLast_def intToString_def natToString.simps digitChar_def js_def idSafe_def)

lemma tok_ex3: "deepLinkToken 12 (js ''soft_1'') = Inr (js ''pz_12_t_soft_1'')"
  by (simp add: deepLinkToken_def deepLinkPayload_def intToString_def natToString.simps digitChar_def uriUnreserved_def js_def)

text \<open>
  C7, as amended. The token of part_000 is at most 64 code units long for all ids and
  clock values (it is cut, the function cannot fail); for a non-negative zone id and
  clock it consists of characters in \<^verbatim>\<open>[a-zA-Z0-9_]\<close>; and for a zone id below \<open>10^19\<close>
  nothing is cut off, so that it ends with an underscore and the last six base-36 digits
  of the clock in milliseconds. The token of index.js has no clock input at all: its
  payload before encoding is at most 22 code units long; when the zone id is non-negative
  and the first eight code units of the template id are in \<^verbatim>\<open>[a-zA-Z0-9_]\<close> the token is
  that payload; in general a token that is produced is at most 86 code units long.
\<close>

theorem deep_link_token_bounds:
  "length (deepLinkToken_part0 now zoneId templateId) \<le> 64
   \<and> (0 \<le> zoneId \<and> 0 \<le> now \<longrightarrow> list_all idSafe (deepLinkToken_part0 now zoneId templateId))
   \<and> (0 \<le> zoneId \<and> zoneId < 10 ^ 19 \<longrightarrow>
        (\<exists>pre. deepLinkToken_part0 now zoneId templateId =
                 pre @ js ''_'' @ sliceLast 6 (intToString 36 now)))
   \<and> length (deepLinkPayload zoneId templateId) \<le> 22
   \<and> (0 \<le> zoneId \<and> list_all idSafe (take 8 templateId) \<longrightarrow>
        deepLinkToken zoneId templateId = Inr (deepLinkPayload zoneId templateId)
        \<and> list_all idSafe (deepLinkPayload zoneId templateId))
   \<and> (\<forall>tok. deepLinkToken zoneId templateId = Inr tok \<longrightarrow> length tok \<le> 86)"
  using token_part0_length[of now zoneId templateId]
    token_part0_safe[of zoneId now templateId]
    token_part0_suffix[of zoneId now templateId]
    payload_length[of zoneId templateId]
    token_safe[of zoneId templateId] payload_safe[of zoneId templateId]
    token_length_86[of zoneId templateId]
  by blast

theorem deep_link_token_bounds_witness:
  "(0::int) \<le> 12 \<and> (12::int) < 10 ^ 19 \<and> (0::int) \<le> 1700000000000
   \<and> list_all idSafe (take 8 (js ''soft_1''))
   \<and> deepLinkToken_part0 1700000000000 12 (js ''soft_1'') = js ''p12tsoft_1_yw3v28''
   \<and> length (js ''p12tsoft_1_yw3v28'') \<le> 64
   \<and> list_all idSafe (js ''p12tsoft_1_yw3v28'')
   \<and> deepLinkToken_part0 1700000060000 12 (js ''soft_1'') = js ''p12tsoft_1_yw55cw''
   \<and> deepLinkToken 12 (js ''soft_1'') = Inr (js ''pz_12_t_soft_1'')
   \<and> list_all idSafe (js ''pz_12_t_soft_1'')"
  using deep_link_token_bounds [of 1700000000000 12 "js ''soft_1''"]
  by (simp add: tok_ex1 tok_ex2 tok_ex3) (simp add: js_def idSafe_def)

text \<open>
  C7 as stated fails in index.js: a template id of eight euro signs gives a token of 79
  code units that contains percent signs, and a template id that is a lone surrogate
  makes the encoder throw instead of truncating.
\<close>

theorem deepLinkToken_bound_counterexample:
  "deepLinkToken 1 euro8 = Inr euroToken \<and> length euroToken = 79
   \<and> \<not> list_all idSafe euroToken
   \<and> deepLinkToken 1 [0xD83D] = Inl URIError"
  by (simp add: deepLinkToken_def deepLinkPayload_def intToString_def natToString.simps
      digitChar_def uriUnreserved_def isLowSurrogate_def isHighSurrogate_def utf8_def pctByte_def
      hexChar_def js_def euro8_def euroToken_def idSafe_def)


section \<open>Cycle steps: basic facts\<close>

lemma emit_simps:
  "zones (emit evs st) = zones st" "posts (emit evs st) = posts st"
  "lastGlobalPostAt (emit evs st) = lastGlobalPostAt st" "trace (emit evs st) = trace st @ evs"
  by (simp_all add: emit_def)

lemma updateZones_simps:
  "zones (updateZones k f st) = map (onRow k f) (zones st)"
  "posts (updateZones k f st) = posts st"
  "lastGlobalPostAt (updateZones k f st) = lastGlobalPostAt st"
  "trace (updateZones k f st) = trace st"
  by (simp_all add: updateZones_def onRow_def)

lemma logPostAttempt_simps:
  "zones (logPostAttempt i k c t d s err st) = zones st"
  "lastGlobalPostAt (logPostAttempt i k c t d s err st) = lastGlobalPostAt st"
  "trace (logPostAttempt i k c t d s err st) = trace st @ logEvents i"
  by (simp_all add: logPostAttempt_def logEvents_def Let_def emit_def)

lemma logPostAttempt_part0_simps:
  "zones (logPostAttempt_part0 i k c t d s err st) = zones st"
  "lastGlobalPostAt (logPostAttempt_part0 i k c t d s err st) = lastGlobalPostAt st"
  "trace (logPostAttempt_part0 i k c t d s err st) = trace st @ logEvents_part0 i"
  by (simp_all add: logPostAttempt_part0_def logEvents_part0_def Let_def emit_def)

lemma incrementFailCount_simps:
  "posts (incrementFailCount r k st) = posts st"
  "lastGlobalPostAt (incrementFailCount r k st) = lastGlobalPostAt st"
  "trace (incrementFailCount r k st) = trace st"
  by (simp_all add: incrementFailCount_def updateZones_def Let_def split: list.splits)

lemma sendSucceeded_simps:
  "zones (sendSucceeded i zone tpl dl st) =
     map (onRow (zid zone) (\<lambda>z. z\<lparr>last_posted_at := Some (t_posted i), last_error := None\<rparr>)) (zones st)"
  "lastGlobalPostAt (sendSucceeded i zone tpl dl st) = t_now i"
  "trace (sendSucceeded i zone tpl dl st) =
     trace st @ SendMessage (zid zone) (telegram_chat_id zone) (t_send i) True # logEvents i"
  by (simp_all add: sendSucceeded_def Let_def updateZonePosted_def updateZones_simps
      logPostAttempt_simps emit_simps)

lemma sendSucceeded_part0_simps:
  "zones (sendSucceeded_part0 i zone tpl dl st) =
     map (onRow (zid zone) (\<lambda>z. z\<lparr>last_posted_at := Some (p_t_posted i), last_error := None\<rparr>)) (zones st)"
  "lastGlobalPostAt (sendSucceeded_part0 i zone tpl dl st) = p_t_global i"
  "trace (sendSucceeded_part0 i zone tpl dl st) =
     trace st @ SendMessage (zid zone) (telegram_chat_id zone) (p_t_send i) True # logEvents_part0 i"
  by (simp_all add: sendSucceeded_part0_def Let_def updateZonePosted_def updateZones_simps
      logPostAttempt_part0_simps emit_simps)

lemma postToZone_cases:
  assumes "zone \<in> set (zones st)" "is_enabled zone"
    "\<not> inQuietHours (QUIET_HOURS e) (t_quiet i)"
  shows "postToZone e i zone st = Inr st \<or> (\<exists>err. postToZone e i zone st = Inl err)
     \<or> (gateOpen e i st zone \<and> send_result i = None
          \<and> (\<exists>tpl dl. postToZone e i zone st = Inr (sendSucceeded i zone tpl dl st)))
     \<or> (gateOpen e i st zone
          \<and> (\<exists>tpl dl msg. send_result i = Some msg
                \<and> postToZone e i zone st = Inr (sendFailed e i zone tpl dl msg st)))"
  using assms
  by (auto simp: postToZone_def gateOpen_def countTodaySuccessPosts_def
      split: sum.splits option.splits if_splits)

lemma promoCycle_cases:
  "promoCycle e i st = st \<or> promoCycle e i st = emit [Console CycleError] st
   \<or> (\<exists>zone tpl dl. gateOpen e i st zone \<and> send_result i = None
         \<and> promoCycle e i st = sendSucceeded i zone tpl dl st)
   \<or> (\<exists>zone tpl dl msg. gateOpen e i st zone \<and> send_result i = Some msg
         \<and> promoCycle e i st = sendFailed e i zone tpl dl msg st)"
proof (cases "inQuietHours (QUIET_HOURS e) (t_quiet i)")
  case True
  then show ?thesis by (simp add: promoCycle_def)
next
  case nq: False
  show ?thesis
  proof (cases "fetch_err i")
    case True
    then show ?thesis using nq by (simp add: promoCycle_def fetchZones_def)
  next
    case nf: False
    define zs where "zs = filter is_enabled (zones st)"
    show ?thesis
    proof (cases "zs = []")
      case True
      then show ?thesis using nq nf by (simp add: promoCycle_def fetchZones_def zs_def)
    next
      case ne: False
      define zone where "zone = zs ! (rnd_zone i mod length zs)"
      have "zone \<in> set zs" unfolding zone_def using ne by simp
      then have z: "zone \<in> set (zones st)" "is_enabled zone" by (auto simp: zs_def)
      have pc: "promoCycle e i st =
          (case postToZone e i zone st of Inl err \<Rightarrow> emit [Console CycleError] st | Inr st' \<Rightarrow> st')"
        using nq nf ne by (simp add: promoCycle_def fetchZones_def zs_def zone_def)
      from postToZone_cases[OF z nq] show ?thesis
        unfolding pc by (elim disjE exE conjE) (simp_all, blast+)
    qed
  qed
qed

lemma findEligible_Some:
  "findEligible e clk k zs = Some z \<Longrightarrow> z \<in> set zs \<and> (\<exists>j. isEligibleByGap e (clk j) z)"
  by (induction zs arbitrary: k) (auto split: if_splits)

lemma attemptOnePost_cases:
  "attemptOnePost e i st = Inr st \<or> (\<exists>err. attemptOnePost e i st = Inl err)
   \<or> (\<exists>zone tpl dl. gateOpen_part0 e i st zone \<and> p_send_result i = None
         \<and> attemptOnePost e i st = Inr (sendSucceeded_part0 i zone tpl dl st))
   \<or> (\<exists>zone tpl dl msg. gateOpen_part0 e i st zone \<and> p_send_result i = Some msg
         \<and> attemptOnePost e i st = Inr (sendFailed_part0 e i zone tpl dl msg st))"
proof (cases "isQuietNowUtc (QUIET_HOURS e) (p_t_quiet i)
              \<or> p_t_now i - lastGlobalPostAt st < GLOBAL_MIN_GAP_SECONDS e * 1000
              \<or> p_fetch_err i")
  case True
  then show ?thesis by (auto simp: attemptOnePost_def fetchZonesCandidateBatch_def)
next
  case open1: False
  define zs where "zs = take 75 (sort_key last_posted_at (filter is_enabled (zones st)))"
  have zs: "set zs \<subseteq> {z \<in> set (zones st). is_enabled z}"
    unfolding zs_def by (auto dest!: in_set_takeD)
  show ?thesis
  proof (cases "findEligible e (p_t_gap i) 0 zs")
    case None
    then show ?thesis using open1
      by (simp add: attemptOnePost_def fetchZonesCandidateBatch_def zs_def)
  next
    case (Some zone)
    from findEligible_Some[OF Some] zs
    have z: "zone \<in> set (zones st)" "is_enabled zone" "\<exists>k. isEligibleByGap e (p_t_gap i k) zone"
      by auto
    have ne: "zs \<noteq> []" using Some by auto
    have a: "attemptOnePost e i st =
      (case countTodaySuccessPosts_part0 i (telegram_chat_id zone) st of
         Inl err \<Rightarrow> Inl err
       | Inr todayCount \<Rightarrow>
      if todayCount \<ge> dailyCap e zone then Inr st
      else if p_tpl_err i then Inl StoreError
      else (case pickWeighted_part0 (p_templates i) (p_rnd_tpl i) of
              None \<Rightarrow> Inr st
            | Some tpl \<Rightarrow>
      (let deepLink = buildDeepLink_part0 e (p_t_link i) (zid zone) (tpl_id tpl)
       in case p_send_result i of
            None \<Rightarrow> Inr (sendSucceeded_part0 i zone tpl deepLink st)
          | Some msg \<Rightarrow> Inr (sendFailed_part0 e i zone tpl deepLink msg st))))"
      using open1 Some ne
      by (simp add: attemptOnePost_def fetchZonesCandidateBatch_def zs_def)
    show ?thesis unfolding a using z open1
      by (auto simp: gateOpen_part0_def countTodaySuccessPosts_part0_def Let_def
          split: sum.splits option.splits if_splits)
  qed
qed

lemma tickCycle_cases:
  "tickCycle e i st = st \<or> tickCycle e i st = emit [Console CycleError] st
   \<or> (\<exists>zone tpl dl. gateOpen_part0 e i st zone \<and> p_send_result i = None
         \<and> tickCycle e i st = sendSucceeded_part0 i zone tpl dl st)
   \<or> (\<exists>zone tpl dl msg. gateOpen_part0 e i st zone \<and> p_send_result i = Some msg
         \<and> tickCycle e i st = sendFailed_part0 e i zone tpl dl msg st)"
  using attemptOnePost_cases[of e i st] unfolding tickCycle_def
  by (elim disjE exE conjE) (simp_all, blast+)

lemma filter_onRow:
  assumes "\<And>z. zid (f z) = zid z"
  shows "filter (\<lambda>z. zid z = k) (map (onRow k f) zs) = map f (filter (\<lambda>z. zid z = k) zs)"
  using assms by (induction zs) (auto simp: onRow_def)

lemma incrementFailCount_zones:
  "zones (incrementFailCount r k st) =
     map (onRow k (\<lambda>z. z\<lparr>fail_count :=
            (if \<not> r \<and> singleRow k (zones st) then Some (num_or (fail_count z) 0 + 1)
             else fail_count z)\<rparr>)) (zones st)"
proof (cases "\<not> r \<and> singleRow k (zones st)")
  case True
  then obtain data where d: "filter (\<lambda>z. zid z = k) (zones st) = [data]"
    by (auto simp: singleRow_def length_Suc_conv)
  have only: "z = data" if "z \<in> set (zones st)" "zid z = k" for z
  proof -
    have "z \<in> set (filter (\<lambda>z. zid z = k) (zones st))" using that by simp
    then show ?thesis unfolding d by simp
  qed
  have "zones (incrementFailCount r k st) =
          map (onRow k (\<lambda>z. z\<lparr>fail_count := Some (num_or (fail_count data) 0 + 1)\<rparr>)) (zones st)"
    using True d by (simp add: incrementFailCount_def Let_def updateZones_simps)
  also have "\<dots> = map (onRow k (\<lambda>z. z\<lparr>fail_count := Some (num_or (fail_count z) 0 + 1)\<rparr>)) (zones st)"
    by (rule map_cong) (auto simp: onRow_def dest: only)
  finally show ?thesis using True by simp
next
  case False
  have id: "map (onRow k (\<lambda>z. z\<lparr>fail_count := fail_count z\<rparr>)) zs = zs" for zs
    by (induction zs) (auto simp: onRow_def)
  have "incrementFailCount r k st = st"
  proof (cases r)
    case True
    then show ?thesis by (simp add: incrementFailCount_def)
  next
    case nr: False
    then have "length (filter (\<lambda>z. zid z = k) (zones st)) \<noteq> 1"
      using False by (simp add: singleRow_def)
    then show ?thesis
      by (auto simp: incrementFailCount_def split: list.splits)
  qed
  then show ?thesis using False id by auto
qed

lemma singleRow_onRow:
  assumes "\<And>z. zid (f z) = zid z"
  shows "singleRow k (map (onRow j f) zs) = singleRow k zs"
proof -
  have "map zid (map (onRow j f) zs) = map zid zs"
    using assms by (induction zs) (auto simp: onRow_def)
  moreover have "length (filter (\<lambda>z. zid z = k) ys) = length (filter (\<lambda>x. x = k) (map zid ys))" for ys :: "zone list"
    by (induction ys) auto
  ultimately show ?thesis unfolding singleRow_def by metis
qed

lemma onRow_onRow:
  assumes "\<And>z. zid (f z) = zid z"
  shows "onRow k g (onRow k f z) = onRow k (\<lambda>z. g (f z)) z"
  using assms by (simp add: onRow_def)

lemma sendFailed_zones:
  "zones (sendFailed e i zone tpl dl msg st) =
     map (onRow (zid zone)
            (failedRow (\<not> fc_read_err i \<and> singleRow (zid zone) (zones st))
               (0 < env_num (env_AUTO_DISABLE_AFTER e) 0
                \<and> env_num (env_AUTO_DISABLE_AFTER e) 0 \<le> num_or (fail_count zone) 0 + 1) msg))
         (zones st)"
  by (auto simp: sendFailed_def Let_def emit_simps updateZones_simps incrementFailCount_zones
      logPostAttempt_simps singleRow_onRow onRow_onRow failedRow_def intro!: map_cong
      simp: onRow_def)

lemma sendFailed_part0_zones:
  "zones (sendFailed_part0 e i zone tpl dl msg st) =
     map (onRow (zid zone)
            (failedRow (\<not> p_fc_read_err i \<and> singleRow (zid zone) (zones st))
               (max 3 (env_num (env_AUTO_DISABLE_AFTER e) 5) \<le> num_or (fail_count zone) 0 + 1) msg))
         (zones st)"
  by (auto simp: sendFailed_part0_def Let_def emit_simps updateZones_simps incrementFailCount_zones
      logPostAttempt_part0_simps singleRow_onRow onRow_onRow failedRow_def intro!: map_cong
      simp: onRow_def)

lemma sendFailed_simps:
  "lastGlobalPostAt (sendFailed e i zone tpl dl msg st) = lastGlobalPostAt st"
  "\<exists>tl. trace (sendFailed e i zone tpl dl msg st) =
     trace st @ SendMessage (zid zone) (telegram_chat_id zone) (t_send i) False # Console FailedSend
       # logEvents i @ tl \<and> (tl = [] \<or> tl = [Console AutoDisabled])"
  by (auto simp: sendFailed_def Let_def emit_simps updateZones_simps incrementFailCount_simps
      logPostAttempt_simps)

lemma sendFailed_part0_simps:
  "lastGlobalPostAt (sendFailed_part0 e i zone tpl dl msg st) = lastGlobalPostAt st"
  "\<exists>tl. trace (sendFailed_part0 e i zone tpl dl msg st) =
     trace st @ SendMessage (zid zone) (telegram_chat_id zone) (p_t_send i) False # Console FailedSend
       # logEvents_part0 i @ tl \<and> (tl = [] \<or> tl = [Console AutoDisabled])"
  by (auto simp: sendFailed_part0_def Let_def emit_simps updateZones_simps incrementFailCount_simps
      logPostAttempt_part0_simps)

section \<open>The example cycle\<close>

lemma env0_simps:
  "env_GLOBAL_MIN_GAP_SECONDS env0 = None" "env_DEFAULT_MIN_GAP_MINUTES env0 = None"
  "env_DEFAULT_DAILY_CAP env0 = None" "env_AUTO_DISABLE_AFTER env0 = None"
  "env_QUIET_HOURS env0 = []" "env_PROMO_LINK_BASE env0 = []" "env_MAIN_BOT_USERNAME env0 = []"
  by (simp_all add: env0_def)

lemma zone0_simps:
  "zid zone0 = 1" "telegram_chat_id zone0 = 7" "is_enabled zone0" "min_gap_minutes zone0 = None"
  "daily_cap zone0 = Some 0" "fail_count zone0 = Some 2" "last_error zone0 = Some (js ''old'')"
  "last_posted_at zone0 = None"
  by (simp_all add: zone0_def)

lemma state0_simps:
  "zones state0 = [zone0]" "posts state0 = []" "lastGlobalPostAt state0 = 0" "trace state0 = []"
  by (simp_all add: state0_def)

lemma io0_simps:
  "t_quiet io0 = 100000" "\<not> fetch_err io0" "rnd_zone io0 = 0" "t_now io0 = 100000"
  "t_count io0 = 100000" "\<not> count_err io0" "templates io0 = [Some tplB]" "rnd_tpl io0 = 1 / 2"
  "t_send io0 = 100001" "send_result io0 = None" "t_log io0 = 100002" "\<not> ins_err1 io0"
  "\<not> ins_err2 io0" "t_posted io0 = 100003" "\<not> fc_read_err io0"
  by (simp_all add: io0_def)

lemma link_ex: "buildDeepLink env0 1 (js ''b'') = Inr (js ''https://t.me/jigcoinbot?start=pz_1_t_b'')"
  by (simp add: buildDeepLink_def deepLinkToken_def deepLinkPayload_def linkBase_def
      PROMO_LINK_BASE_def MAIN_BOT_USERNAME_def trim_def env0_def intToString_def
      natToString.simps digitChar_def uriUnreserved_def js_def)

lemma pick_ex: "pickWeighted [Some tplB] (1 / 2) = Some tplB"
  by (simp add: pickWeighted_def Let_def weightOf_def tplB_def)

lemma tplB_id: "tpl_id tplB = js ''b''"
  by (simp add: tplB_def)

lemma quiet_ex: "\<not> inQuietHours (QUIET_HOURS env0) t"
  by (simp add: inQuietHours_def QUIET_HOURS_def env0_def trim_def)

lemma post_ex:
  "postToZone env0 io0 zone0 state0 =
     Inr (sendSucceeded io0 zone0 tplB (js ''https://t.me/jigcoinbot?start=pz_1_t_b'') state0)"
  by (simp add: postToZone_def GLOBAL_MIN_GAP_SECONDS_def env_num_def cooldownActive_def
      countTodaySuccessPosts_def todaySuccessRows_def dailyCap_def num_or_def
      DEFAULT_DAILY_CAP_def pick_ex link_ex tplB_id env0_simps zone0_simps state0_simps io0_simps)

lemma cycle_ex:
  "promoCycle env0 io0 state0 =
     sendSucceeded io0 zone0 tplB (js ''https://t.me/jigcoinbot?start=pz_1_t_b'') state0"
  by (simp add: promoCycle_def quiet_ex fetchZones_def post_ex zone0_simps state0_simps io0_simps)

section \<open>Cycles: outcomes and examples\<close>

lemma newEvents_append: "trace st' = trace st @ evs \<Longrightarrow> newEvents st st' = evs"
  by (simp add: newEvents_def)

lemma newEvents_self: "newEvents st st = []"
  by (simp add: newEvents_def)

lemma logEvents_no_send: "SendMessage k c t ok \<notin> set (logEvents i)"
  by (simp add: logEvents_def)

lemma logEvents_part0_no_send: "SendMessage k c t ok \<notin> set (logEvents_part0 i)"
  by (simp add: logEvents_part0_def)

lemma newEvents_sendSucceeded:
  "newEvents st (sendSucceeded i zone tpl dl st) =
     SendMessage (zid zone) (telegram_chat_id zone) (t_send i) True # logEvents i"
  by (rule newEvents_append) (simp add: sendSucceeded_simps)

lemma newEvents_sendSucceeded_part0:
  "newEvents st (sendSucceeded_part0 i zone tpl dl st) =
     SendMessage (zid zone) (telegram_chat_id zone) (p_t_send i) True # logEvents_part0 i"
  by (rule newEvents_append) (simp add: sendSucceeded_part0_simps)

lemma newEvents_sendFailed:
  "\<exists>tl. newEvents st (sendFailed e i zone tpl dl msg st) =
     SendMessage (zid zone) (telegram_chat_id zone) (t_send i) False # Console FailedSend
       # logEvents i @ tl \<and> (tl = [] \<or> tl = [Console AutoDisabled])"
  using sendFailed_simps(2)[of e i zone tpl dl msg st]
  by (auto simp: newEvents_def)

lemma newEvents_sendFailed_part0:
  "\<exists>tl. newEvents st (sendFailed_part0 e i zone tpl dl msg st) =
     SendMessage (zid zone) (telegram_chat_id zone) (p_t_send i) False # Console FailedSend
       # logEvents_part0 i @ tl \<and> (tl = [] \<or> tl = [Console AutoDisabled])"
  using sendFailed_part0_simps(2)[of e i zone tpl dl msg st]
  by (auto simp: newEvents_def)

lemma newEvents_emit: "newEvents st (emit evs st) = evs"
  by (simp add: newEvents_def emit_simps)

text \<open>What a cycle that called sendMessage successfully for zone k is.\<close>

lemma promoCycle_success:
  assumes "SendMessage k c t True \<in> set (newEvents st (promoCycle e i st))"
  shows "\<exists>zone tpl dl. gateOpen e i st zone \<and> zid zone = k \<and> telegram_chat_id zone = c
           \<and> t = t_send i \<and> send_result i = None
           \<and> promoCycle e i st = sendSucceeded i zone tpl dl st"
  using promoCycle_cases[of e i st]
proof (elim disjE exE conjE)
  assume "promoCycle e i st = st"
  then show ?thesis using assms by (simp add: newEvents_self)
next
  assume "promoCycle e i st = emit [Console CycleError] st"
  then show ?thesis using assms by (simp add: newEvents_emit)
next
  fix zone tpl dl
  assume a: "gateOpen e i st zone" "send_result i = None"
    "promoCycle e i st = sendSucceeded i zone tpl dl st"
  then have "zid zone = k \<and> telegram_chat_id zone = c \<and> t = t_send i"
    using assms logEvents_no_send by (auto simp: newEvents_sendSucceeded)
  then show ?thesis using a by blast
next
  fix zone tpl dl msg
  assume a: "promoCycle e i st = sendFailed e i zone tpl dl msg st"
  from newEvents_sendFailed[of st e i zone tpl dl msg] assms logEvents_no_send
  show ?thesis unfolding a by auto
qed

lemma promoCycle_failure:
  assumes "SendMessage k c t False \<in> set (newEvents st (promoCycle e i st))"
  shows "\<exists>zone tpl dl msg. gateOpen e i st zone \<and> zid zone = k \<and> telegram_chat_id zone = c
           \<and> t = t_send i \<and> send_result i = Some msg
           \<and> promoCycle e i st = sendFailed e i zone tpl dl msg st"
  using promoCycle_cases[of e i st]
proof (elim disjE exE conjE)
  assume "promoCycle e i st = st"
  then show ?thesis using assms by (simp add: newEvents_self)
next
  assume "promoCycle e i st = emit [Console CycleError] st"
  then show ?thesis using assms by (simp add: newEvents_emit)
next
  fix zone tpl dl
  assume a: "promoCycle e i st = sendSucceeded i zone tpl dl st"
  show ?thesis using assms logEvents_no_send unfolding a by (auto simp: newEvents_sendSucceeded)
next
  fix zone tpl dl msg
  assume a: "gateOpen e i st zone" "send_result i = Some msg"
    "promoCycle e i st = sendFailed e i zone tpl dl msg st"
  from newEvents_sendFailed[of st e i zone tpl dl msg] assms logEvents_no_send
  have "zid zone = k \<and> telegram_chat_id zone = c \<and> t = t_send i"
    unfolding a(3) by auto
  then show ?thesis using a by blast
qed

lemma tickCycle_success:
  assumes "SendMessage k c t True \<in> set (newEvents st (tickCycle e i st))"
  shows "\<exists>zone tpl dl. gateOpen_part0 e i st zone \<and> zid zone = k \<and> telegram_chat_id zone = c
           \<and> t = p_t_send i \<and> p_send_result i = None
           \<and> tickCycle e i st = sendSucceeded_part0 i zone tpl dl st"
  using tickCycle_cases[of e i st]
proof (elim disjE exE conjE)
  assume "tickCycle e i st = st"
  then show ?thesis using assms by (simp add: newEvents_self)
next
  assume "tickCycle e i st = emit [Console CycleError] st"
  then show ?thesis using assms by (simp add: newEvents_emit)
next
  fix zone tpl dl
  assume a: "gateOpen_part0 e i st zone" "p_send_result i = None"
    "tickCycle e i st = sendSucceeded_part0 i zone tpl dl st"
  then have "zid zone = k \<and> telegram_chat_id zone = c \<and> t = p_t_send i"
    using assms logEvents_part0_no_send by (auto simp: newEvents_sendSucceeded_part0)
  then show ?thesis using a by blast
next
  fix zone tpl dl msg
  assume a: "tickCycle e i st = sendFailed_part0 e i zone tpl dl msg st"
  from newEvents_sendFailed_part0[of st e i zone tpl dl msg] assms logEvents_part0_no_send
  show ?thesis unfolding a by auto
qed

lemma tickCycle_failure:
  assumes "SendMessage k c t False \<in> set (newEvents st (tickCycle e i st))"
  shows "\<exists>zone tpl dl msg. gateOpen_part0 e i st zone \<and> zid zone = k \<and> telegram_chat_id zone = c
           \<and> t = p_t_send i \<and> p_send_result i = Some msg
           \<and> tickCycle e i st = sendFailed_part0 e i zone tpl dl msg st"
  using tickCycle_cases[of e i st]
proof (elim disjE exE conjE)
  assume "tickCycle e i st = st"
  then show ?thesis using assms by (simp add: newEvents_self)
next
  assume "tickCycle e i st = emit [Console CycleError] st"
  then show ?thesis using assms by (simp add: newEvents_emit)
next
  fix zone tpl dl
  assume a: "tickCycle e i st = sendSucceeded_part0 i zone tpl dl st"
  show ?thesis using assms logEvents_part0_no_send unfolding a
    by (auto simp: newEvents_sendSucceeded_part0)
next
  fix zone tpl dl msg
  assume a: "gateOpen_part0 e i st zone" "p_send_result i = Some msg"
    "tickCycle e i st = sendFailed_part0 e i zone tpl dl msg st"
  from newEvents_sendFailed_part0[of st e i zone tpl dl msg] assms logEvents_part0_no_send
  have "zid zone = k \<and> telegram_chat_id zone = c \<and> t = p_t_send i"
    unfolding a(3) by auto
  then show ?thesis using a by blast
qed

lemma iop0_simps:
  "p_t_quiet iop0 = 100000" "p_t_now iop0 = 100000" "\<not> p_fetch_err iop0"
  "p_t_gap iop0 k = 100000" "p_t_count iop0 = 100000" "\<not> p_count_err iop0"
  "\<not> p_tpl_err iop0" "p_templates iop0 = [tplB]" "p_rnd_tpl iop0 = 1 / 2"
  "p_t_link iop0 = 100000" "p_t_send iop0 = 100001" "p_send_result iop0 = None"
  "\<not> p_ins_err iop0" "p_t_created iop0 = 100002" "p_t_posted iop0 = 100003"
  "p_t_global iop0 = 100004" "\<not> p_fc_read_err iop0"
  by (simp_all add: iop0_def)

lemma iof_simps:
  "t_quiet iof = 100000" "\<not> fetch_err iof" "rnd_zone iof = 0" "t_now iof = 100000"
  "t_count iof = 100000" "\<not> count_err iof" "templates iof = [Some tplB]" "rnd_tpl iof = 1 / 2"
  "t_send iof = 100001" "send_result iof = Some blocked" "t_log iof = 100002" "\<not> ins_err1 iof"
  "\<not> ins_err2 iof" "t_posted iof = 100003" "\<not> fc_read_err iof"
  by (simp_all add: iof_def io0_simps)





text \<open>A cycle of index.js on one enabled, never posted zone, with templates [tplB].\<close>

lemma promoCycle_one_zone:
  assumes "env_QUIET_HOURS e = []" "env_GLOBAL_MIN_GAP_SECONDS e = None"
    "env_DEFAULT_DAILY_CAP e = None" "env_PROMO_LINK_BASE e = []" "env_MAIN_BOT_USERNAME e = []"
    and "\<not> fetch_err i" "t_now i = 100000" "\<not> count_err i"
    "pickWeighted (templates i) (rnd_tpl i) = Some tplB"
    and "zones st = [z]" "posts st = []" "lastGlobalPostAt st = 0"
    and "zid z = 1" "is_enabled z" "daily_cap z = Some 0" "last_posted_at z = None"
  shows "promoCycle e i st =
     (case send_result i of
        None \<Rightarrow> sendSucceeded i z tplB (js ''https://t.me/jigcoinbot?start=pz_1_t_b'') st
      | Some msg \<Rightarrow> sendFailed e i z tplB (js ''https://t.me/jigcoinbot?start=pz_1_t_b'') msg st)"
proof -
  have q: "\<not> inQuietHours (QUIET_HOURS e) t" for t
    using assms(1) by (simp add: inQuietHours_def QUIET_HOURS_def trim_def)
  have l: "buildDeepLink e 1 (js ''b'') = Inr (js ''https://t.me/jigcoinbot?start=pz_1_t_b'')"
    using assms(4,5)
    by (simp add: buildDeepLink_def deepLinkToken_def deepLinkPayload_def linkBase_def
      PROMO_LINK_BASE_def MAIN_BOT_USERNAME_def trim_def intToString_def
      natToString.simps digitChar_def uriUnreserved_def js_def)
  have p: "postToZone e i z st =
     (case send_result i of
        None \<Rightarrow> Inr (sendSucceeded i z tplB (js ''https://t.me/jigcoinbot?start=pz_1_t_b'') st)
      | Some msg \<Rightarrow> Inr (sendFailed e i z tplB (js ''https://t.me/jigcoinbot?start=pz_1_t_b'') msg st))"
    using assms
    by (simp add: postToZone_def GLOBAL_MIN_GAP_SECONDS_def env_num_def cooldownActive_def
      countTodaySuccessPosts_def todaySuccessRows_def dailyCap_def num_or_def
      DEFAULT_DAILY_CAP_def l tplB_id)
  show ?thesis using assms(6,10,14)
    by (simp add: promoCycle_def q fetchZones_def p split: option.split)
qed

lemma tickCycle_one_zone:
  assumes "env_QUIET_HOURS e = []" "env_GLOBAL_MIN_GAP_SECONDS e = None"
    "env_DEFAULT_DAILY_CAP e = None"
    and "\<not> p_fetch_err i" "p_t_now i = 100000" "\<not> p_count_err i" "\<not> p_tpl_err i"
    "pickWeighted_part0 (p_templates i) (p_rnd_tpl i) = Some tplB"
    and "zones st = [z]" "posts st = []" "lastGlobalPostAt st = 0"
    and "is_enabled z" "daily_cap z = Some 0" "last_posted_at z = None"
  shows "\<exists>dl. tickCycle e i st =
     (case p_send_result i of
        None \<Rightarrow> sendSucceeded_part0 i z tplB dl st
      | Some msg \<Rightarrow> sendFailed_part0 e i z tplB dl msg st)"
proof -
  have q: "\<not> isQuietNowUtc (QUIET_HOURS e) t" for t
    using assms(1)
    by (simp add: isQuietNowUtc_def parseQuietHours_def quietMatch_def QUIET_HOURS_def trim_def)
  have "tickCycle e i st =
     (case p_send_result i of
        None \<Rightarrow> sendSucceeded_part0 i z tplB (buildDeepLink_part0 e (p_t_link i) (zid z) (tpl_id tplB)) st
      | Some msg \<Rightarrow> sendFailed_part0 e i z tplB (buildDeepLink_part0 e (p_t_link i) (zid z) (tpl_id tplB)) msg st)"
    using assms
    by (simp add: tickCycle_def attemptOnePost_def q GLOBAL_MIN_GAP_SECONDS_def env_num_def
        fetchZonesCandidateBatch_def isEligibleByGap_def countTodaySuccessPosts_part0_def
        todaySuccessRows_def dailyCap_def num_or_def DEFAULT_DAILY_CAP_def Let_def
        split: option.split)
  then show ?thesis by blast
qed

lemma pick0_ex: "pickWeighted_part0 [tplB] (1 / 2) = Some tplB"
  by (simp add: pickWeighted_part0_def Let_def tplB_def)

section \<open>Failure counter and last error\<close>

lemma onRow_if: "onRow k f = (\<lambda>z. if zid z = k then f z else z)"
  by (simp add: onRow_def fun_eq_iff)

lemma list_all2_map_same: "(\<And>x. x \<in> set xs \<Longrightarrow> P x (f x)) \<Longrightarrow> list_all2 P xs (map f xs)"
  by (simp add: list_all2_map2 list_all2_same)

lemma failCount_step_promoCycle:
  "list_all2 (\<lambda>z z'. fail_count z' = fail_count z
                     \<or> fail_count z' = Some (num_or (fail_count z) 0 + 1))
     (zones st) (zones (promoCycle e i st))"
  using promoCycle_cases[of e i st]
proof (elim disjE exE conjE)
  assume "promoCycle e i st = st"
  then show ?thesis by (simp add: list_all2_same)
next
  assume "promoCycle e i st = emit [Console CycleError] st"
  then show ?thesis by (simp add: emit_simps list_all2_same)
next
  fix zone tpl dl
  assume "promoCycle e i st = sendSucceeded i zone tpl dl st"
  then show ?thesis
    by (auto simp: sendSucceeded_simps onRow_def intro!: list_all2_map_same)
next
  fix zone tpl dl msg
  assume "promoCycle e i st = sendFailed e i zone tpl dl msg st"
  then show ?thesis
    by (auto simp: sendFailed_zones onRow_def failedRow_def intro!: list_all2_map_same)
qed

lemma failCount_step_tickCycle:
  "list_all2 (\<lambda>z z'. fail_count z' = fail_count z
                     \<or> fail_count z' = Some (num_or (fail_count z) 0 + 1))
     (zones st) (zones (tickCycle e i st))"
  using tickCycle_cases[of e i st]
proof (elim disjE exE conjE)
  assume "tickCycle e i st = st"
  then show ?thesis by (simp add: list_all2_same)
next
  assume "tickCycle e i st = emit [Console CycleError] st"
  then show ?thesis by (simp add: emit_simps list_all2_same)
next
  fix zone tpl dl
  assume "tickCycle e i st = sendSucceeded_part0 i zone tpl dl st"
  then show ?thesis
    by (auto simp: sendSucceeded_part0_simps onRow_def intro!: list_all2_map_same)
next
  fix zone tpl dl msg
  assume "tickCycle e i st = sendFailed_part0 e i zone tpl dl msg st"
  then show ?thesis
    by (auto simp: sendFailed_part0_zones onRow_def failedRow_def intro!: list_all2_map_same)
qed

text \<open>
  C1, as amended. In both revisions, a cycle whose \<^verbatim>\<open>sendMessage\<close> call for a destination
  succeeded leaves the table as it was except that the rows of that destination have
  \<open>last_posted_at\<close> set and \<open>last_error\<close> cleared: \<open>fail_count\<close> is not reset. And no
  cycle at all resets a \<open>fail_count\<close>: whatever the cycle does (also when it disables the
  destination), each row's \<open>fail_count\<close> is what it was, or what it was (0 if null) plus
  one.
\<close>

theorem success_clears_error_keeps_failCount:
  "(\<forall>k c t. SendMessage k c t True \<in> set (newEvents st (promoCycle e i st)) \<longrightarrow>
       zones (promoCycle e i st) =
         map (\<lambda>z. if zid z = k
                   then z\<lparr>last_posted_at := Some (t_posted i), last_error := None\<rparr> else z)
           (zones st))
   \<and> (\<forall>k c t. SendMessage k c t True \<in> set (newEvents st (tickCycle e ip st)) \<longrightarrow>
       zones (tickCycle e ip st) =
         map (\<lambda>z. if zid z = k
                   then z\<lparr>last_posted_at := Some (p_t_posted ip), last_error := None\<rparr> else z)
           (zones st))
   \<and> list_all2 (\<lambda>z z'. fail_count z' = fail_count z
                        \<or> fail_count z' = Some (num_or (fail_count z) 0 + 1))
        (zones st) (zones (promoCycle e i st))
   \<and> list_all2 (\<lambda>z z'. fail_count z' = fail_count z
                        \<or> fail_count z' = Some (num_or (fail_count z) 0 + 1))
        (zones st) (zones (tickCycle e ip st))"
proof (intro conjI allI impI)
  fix k c t
  assume "SendMessage k c t True \<in> set (newEvents st (promoCycle e i st))"
  from promoCycle_success[OF this] show "zones (promoCycle e i st) =
         map (\<lambda>z. if zid z = k
                   then z\<lparr>last_posted_at := Some (t_posted i), last_error := None\<rparr> else z)
           (zones st)"
    by (auto simp: sendSucceeded_simps onRow_if)
next
  fix k c t
  assume "SendMessage k c t True \<in> set (newEvents st (tickCycle e ip st))"
  from tickCycle_success[OF this] show "zones (tickCycle e ip st) =
         map (\<lambda>z. if zid z = k
                   then z\<lparr>last_posted_at := Some (p_t_posted ip), last_error := None\<rparr> else z)
           (zones st)"
    by (auto simp: sendSucceeded_part0_simps onRow_if)
qed (rule failCount_step_promoCycle failCount_step_tickCycle)+

lemma cycle0: "promoCycle env0 io0 state0 =
   sendSucceeded io0 zone0 tplB (js ''https://t.me/jigcoinbot?start=pz_1_t_b'') state0"
  using promoCycle_one_zone[of env0 io0 state0 zone0]
  by (simp add: env0_simps io0_simps state0_simps zone0_simps pick_ex)

lemma tick0: "\<exists>dl. tickCycle env0 iop0 state0 = sendSucceeded_part0 iop0 zone0 tplB dl state0"
  using tickCycle_one_zone[of env0 iop0 state0 zone0]
  by (simp add: env0_simps iop0_simps state0_simps zone0_simps pick0_ex)

lemma send0: "SendMessage 1 7 100001 True \<in> set (newEvents state0 (promoCycle env0 io0 state0))"
  by (simp add: cycle0 newEvents_sendSucceeded zone0_simps io0_simps)

lemma sendp0: "SendMessage 1 7 100001 True \<in> set (newEvents state0 (tickCycle env0 iop0 state0))"
  using tick0 by (auto simp: newEvents_sendSucceeded_part0 zone0_simps iop0_simps)

text \<open>
  The example cycle sends to destination 1 and succeeds; afterwards its row has the new
  \<open>last_posted_at\<close>, no \<open>last_error\<close>, and everything else as before.
\<close>

theorem success_clears_error_keeps_failCount_witness:
  "SendMessage 1 7 100001 True \<in> set (newEvents state0 (promoCycle env0 io0 state0))
   \<and> SendMessage 1 7 100001 True \<in> set (newEvents state0 (tickCycle env0 iop0 state0))
   \<and> zones (promoCycle env0 io0 state0) = [zone0\<lparr>last_posted_at := Some 100003, last_error := None\<rparr>]
   \<and> zones (tickCycle env0 iop0 state0) = [zone0\<lparr>last_posted_at := Some 100003, last_error := None\<rparr>]"
proof -
  note th = success_clears_error_keeps_failCount [of state0 env0 io0 iop0]
  have a: "zones (promoCycle env0 io0 state0) =
      map (\<lambda>z. if zid z = 1
                then z\<lparr>last_posted_at := Some (t_posted io0), last_error := None\<rparr> else z)
        (zones state0)"
    using th send0 by blast
  have b: "zones (tickCycle env0 iop0 state0) =
      map (\<lambda>z. if zid z = 1
                then z\<lparr>last_posted_at := Some (p_t_posted iop0), last_error := None\<rparr> else z)
        (zones state0)"
    using th sendp0 by blast
  show ?thesis using send0 sendp0
    by (simp add: a b state0_simps zone0_simps io0_simps iop0_simps)
qed

text \<open>
  C1 as stated fails in both revisions: destination 1 has \<open>fail_count = 2\<close>, the send to
  it succeeds, and its \<open>fail_count\<close> is still 2.
\<close>

theorem success_resets_failCount_counterexample:
  "SendMessage 1 7 100001 True \<in> set (newEvents state0 (promoCycle env0 io0 state0))
   \<and> map fail_count (zones state0) = [Some 2]
   \<and> map fail_count (zones (promoCycle env0 io0 state0)) = [Some 2]
   \<and> SendMessage 1 7 100001 True \<in> set (newEvents state0 (tickCycle env0 iop0 state0))
   \<and> map fail_count (zones (tickCycle env0 iop0 state0)) = [Some 2]"
  using tick0
  by (auto simp: cycle0 newEvents_sendSucceeded newEvents_sendSucceeded_part0
      sendSucceeded_simps sendSucceeded_part0_simps
      zone0_simps io0_simps iop0_simps state0_simps onRow_def)

section \<open>Failure escalation\<close>




lemma cyclef0: "promoCycle env0 iof state0 =
   sendFailed env0 iof zone0 tplB (js ''https://t.me/jigcoinbot?start=pz_1_t_b'') blocked state0"
  using promoCycle_one_zone[of env0 iof state0 zone0]
  by (simp add: env0_simps iof_simps state0_simps zone0_simps pick_ex)








section \<open>Malformed quiet hours\<close>

lemma inQuietHours_malformed: "quietMatch q = None \<Longrightarrow> \<not> inQuietHours q t"
  by (simp add: inQuietHours_def)

lemma isQuietNowUtc_malformed: "quietMatch q = None \<Longrightarrow> \<not> isQuietNowUtc q t"
  by (simp add: isQuietNowUtc_def parseQuietHours_def)

lemma quietMatch_empty: "quietMatch [] = None"
  by (simp add: quietMatch_def)

lemma QUIET_HOURS_cleared: "QUIET_HOURS (e\<lparr>env_QUIET_HOURS := []\<rparr>) = []"
  by (simp add: QUIET_HOURS_def trim_def)

lemma consts_without_quiet:
  "GLOBAL_MIN_GAP_SECONDS (e\<lparr>env_QUIET_HOURS := q\<rparr>) = GLOBAL_MIN_GAP_SECONDS e"
  "minGap (e\<lparr>env_QUIET_HOURS := q\<rparr>) = minGap e"
  "dailyCap (e\<lparr>env_QUIET_HOURS := q\<rparr>) = dailyCap e"
  "linkBase (e\<lparr>env_QUIET_HOURS := q\<rparr>) = linkBase e"
  by (simp_all add: GLOBAL_MIN_GAP_SECONDS_def minGap_def dailyCap_def linkBase_def
      DEFAULT_MIN_GAP_MINUTES_def DEFAULT_DAILY_CAP_def PROMO_LINK_BASE_def
      MAIN_BOT_USERNAME_def fun_eq_iff)

lemma steps_without_quiet:
  "cooldownActive (e\<lparr>env_QUIET_HOURS := q\<rparr>) = cooldownActive e"
  "buildDeepLink (e\<lparr>env_QUIET_HOURS := q\<rparr>) = buildDeepLink e"
  "sendFailed (e\<lparr>env_QUIET_HOURS := q\<rparr>) = sendFailed e"
  "isEligibleByGap (e\<lparr>env_QUIET_HOURS := q\<rparr>) = isEligibleByGap e"
  "buildDeepLink_part0 (e\<lparr>env_QUIET_HOURS := q\<rparr>) = buildDeepLink_part0 e"
  "sendFailed_part0 (e\<lparr>env_QUIET_HOURS := q\<rparr>) = sendFailed_part0 e"
  by (simp_all add: cooldownActive_def buildDeepLink_def sendFailed_def isEligibleByGap_def
      buildDeepLink_part0_def sendFailed_part0_def consts_without_quiet fun_eq_iff
      cong: sum.case_cong option.case_cong if_cong)

lemma findEligible_without_quiet:
  "findEligible (e\<lparr>env_QUIET_HOURS := q\<rparr>) clk k zs = findEligible e clk k zs"
  by (induction zs arbitrary: k) (simp_all add: steps_without_quiet)

lemma postToZone_without_quiet:
  "postToZone (e\<lparr>env_QUIET_HOURS := q\<rparr>) i zone st = postToZone e i zone st"
  by (simp add: postToZone_def consts_without_quiet steps_without_quiet
      cong: sum.case_cong option.case_cong if_cong)

lemma promoCycle_malformed:
  assumes "quietMatch (QUIET_HOURS e) = None"
  shows "promoCycle e i st = promoCycle (e\<lparr>env_QUIET_HOURS := []\<rparr>) i st"
  using inQuietHours_malformed[OF assms] inQuietHours_malformed[OF quietMatch_empty]
  by (simp add: promoCycle_def QUIET_HOURS_cleared postToZone_without_quiet
      cong: sum.case_cong if_cong)

lemma attemptOnePost_malformed:
  assumes "quietMatch (QUIET_HOURS e) = None"
  shows "attemptOnePost e i st = attemptOnePost (e\<lparr>env_QUIET_HOURS := []\<rparr>) i st"
  using isQuietNowUtc_malformed[OF assms] isQuietNowUtc_malformed[OF quietMatch_empty]
  by (simp add: attemptOnePost_def QUIET_HOURS_cleared consts_without_quiet
      steps_without_quiet findEligible_without_quiet
      cong: sum.case_cong option.case_cong if_cong)

text \<open>
  C8, as amended. When the configured string does not match \<^verbatim>\<open>HH-HH\<close>, no hour is quiet
  in either revision, and the cycle is the cycle of a deployment with no quiet hours
  configured at all.
\<close>

theorem malformed_quiet_hours_ignored:
  assumes "quietMatch (QUIET_HOURS e) = None"
  shows "\<not> inQuietHours (QUIET_HOURS e) t \<and> \<not> isQuietNowUtc (QUIET_HOURS e) t
       \<and> promoCycle e i st = promoCycle (e\<lparr>env_QUIET_HOURS := []\<rparr>) i st
       \<and> attemptOnePost e ip st = attemptOnePost (e\<lparr>env_QUIET_HOURS := []\<rparr>) ip st"
  using inQuietHours_malformed[OF assms] isQuietNowUtc_malformed[OF assms]
    promoCycle_malformed[OF assms] attemptOnePost_malformed[OF assms]
  by simp

lemma envq_malformed: "quietMatch (QUIET_HOURS envq) = None"
  by (simp add: envq_def QUIET_HOURS_def trim_def quietMatch_def js_def isSpace_def isDigit_def)

lemma envq_cleared: "envq\<lparr>env_QUIET_HOURS := []\<rparr> = env0"
  by (simp add: envq_def env0_def)

theorem malformed_quiet_hours_ignored_witness:
  "quietMatch (QUIET_HOURS envq) = None
   \<and> \<not> inQuietHours (QUIET_HOURS envq) 100000 \<and> \<not> isQuietNowUtc (QUIET_HOURS envq) 100000
   \<and> promoCycle envq io0 state0 = promoCycle env0 io0 state0
   \<and> attemptOnePost envq iop0 state0 = attemptOnePost env0 iop0 state0"
  using malformed_quiet_hours_ignored [OF envq_malformed, of 100000 io0 state0 iop0]
  by (simp add: envq_malformed envq_cleared)

text \<open>
  C8 as stated fails in both revisions: with the quiet-hours string \<^verbatim>\<open>abc\<close> the cycle sends
  a message to destination 1 and updates its row.
\<close>

theorem malformed_quiet_hours_counterexample:
  "quietMatch (QUIET_HOURS envq) = None
   \<and> SendMessage 1 7 100001 True \<in> set (newEvents state0 (promoCycle envq io0 state0))
   \<and> zones (promoCycle envq io0 state0) \<noteq> zones state0
   \<and> SendMessage 1 7 100001 True \<in> set (newEvents state0 (tickCycle envq iop0 state0))
   \<and> zones (tickCycle envq iop0 state0) \<noteq> zones state0"
proof -
  have a: "promoCycle envq io0 state0 = promoCycle env0 io0 state0"
    using promoCycle_malformed[OF envq_malformed] by (simp add: envq_cleared)
  have b: "tickCycle envq iop0 state0 = tickCycle env0 iop0 state0"
    using attemptOnePost_malformed[OF envq_malformed] by (simp add: envq_cleared tickCycle_def)
  have c: "zones (promoCycle env0 io0 state0) \<noteq> zones state0"
    by (simp add: cycle0 sendSucceeded_simps state0_simps zone0_def onRow_def)
  from tick0 have d: "zones (tickCycle env0 iop0 state0) \<noteq> zones state0"
    by (auto simp: sendSucceeded_part0_simps state0_simps zone0_def onRow_def)
  show ?thesis using envq_malformed send0 sendp0 c d by (simp add: a b)
qed

section \<open>Logging failures\<close>

lemma logEvents_logging: "filter (\<lambda>ev. \<not> isLogging ev) (logEvents i) = []"
  by (simp add: logEvents_def isLogging_def isInsert_def)

lemma logEvents_part0_logging: "filter (\<lambda>ev. \<not> isLogging ev) (logEvents_part0 i) = []"
  by (simp add: logEvents_part0_def isLogging_def isInsert_def)

lemma logEvents_inserts:
  "length (filter isInsert (logEvents i)) = (if ins_err1 i then 2 else 1)"
  by (simp add: logEvents_def isInsert_def)

lemma logEvents_part0_inserts: "length (filter isInsert (logEvents_part0 i)) = 1"
  by (simp add: logEvents_part0_def isInsert_def)

lemma sendFailed_trace:
  "trace (sendFailed e i zone tpl dl msg st) =
     trace st @ [SendMessage (zid zone) (telegram_chat_id zone) (t_send i) False, Console FailedSend]
       @ logEvents i
       @ (if 0 < env_num (env_AUTO_DISABLE_AFTER e) 0
             \<and> env_num (env_AUTO_DISABLE_AFTER e) 0 \<le> num_or (fail_count zone) 0 + 1
          then [Console AutoDisabled] else [])"
  by (simp add: sendFailed_def Let_def emit_simps updateZones_simps incrementFailCount_simps
      logPostAttempt_simps)

lemma sendFailed_part0_trace:
  "trace (sendFailed_part0 e i zone tpl dl msg st) =
     trace st @ [SendMessage (zid zone) (telegram_chat_id zone) (p_t_send i) False, Console FailedSend]
       @ logEvents_part0 i
       @ (if max 3 (env_num (env_AUTO_DISABLE_AFTER e) 5) \<le> num_or (fail_count zone) 0 + 1
          then [Console AutoDisabled] else [])"
  by (simp add: sendFailed_part0_def Let_def emit_simps updateZones_simps incrementFailCount_simps
      logPostAttempt_part0_simps)

lemma core_sendSucceeded:
  "core (sendSucceeded (i\<lparr>ins_err1 := a, ins_err2 := b\<rparr>) zone tpl dl st) =
   core (sendSucceeded i zone tpl dl st)"
  by (simp add: core_def sendSucceeded_simps logEvents_logging)

lemma core_sendFailed:
  "core (sendFailed e (i\<lparr>ins_err1 := a, ins_err2 := b\<rparr>) zone tpl dl msg st) =
   core (sendFailed e i zone tpl dl msg st)"
  by (simp add: core_def sendFailed_zones sendFailed_simps(1) sendFailed_trace logEvents_logging)

lemma core_sendSucceeded_part0:
  "core (sendSucceeded_part0 (i\<lparr>p_ins_err := a\<rparr>) zone tpl dl st) =
   core (sendSucceeded_part0 i zone tpl dl st)"
  by (simp add: core_def sendSucceeded_part0_simps logEvents_part0_logging)

lemma core_sendFailed_part0:
  "core (sendFailed_part0 e (i\<lparr>p_ins_err := a\<rparr>) zone tpl dl msg st) =
   core (sendFailed_part0 e i zone tpl dl msg st)"
  by (simp add: core_def sendFailed_part0_zones sendFailed_part0_simps(1) sendFailed_part0_trace
      logEvents_part0_logging)

lemma core_promoCycle:
  "core (promoCycle e (i\<lparr>ins_err1 := a, ins_err2 := b\<rparr>) st) = core (promoCycle e i st)"
  by (simp add: promoCycle_def fetchZones_def postToZone_def countTodaySuccessPosts_def
      core_sendSucceeded core_sendFailed split: sum.split option.split)

lemma core_tickCycle:
  "core (tickCycle e (i\<lparr>p_ins_err := a\<rparr>) st) = core (tickCycle e i st)"
  by (simp add: tickCycle_def attemptOnePost_def fetchZonesCandidateBatch_def
      countTodaySuccessPosts_part0_def Let_def
      core_sendSucceeded_part0 core_sendFailed_part0 split: sum.split option.split)

lemma inserts_promoCycle:
  "length (filter isInsert (newEvents st (promoCycle e i st)))
     \<le> (if ins_err1 i then 2 else 1)"
  using promoCycle_cases[of e i st]
proof (elim disjE exE conjE)
  assume "promoCycle e i st = st"
  then show ?thesis by (simp add: newEvents_self)
next
  assume "promoCycle e i st = emit [Console CycleError] st"
  then show ?thesis by (simp add: newEvents_emit isInsert_def)
next
  fix zone tpl dl
  assume "promoCycle e i st = sendSucceeded i zone tpl dl st"
  then show ?thesis by (simp add: newEvents_sendSucceeded logEvents_inserts isInsert_def)
next
  fix zone tpl dl msg
  assume a: "promoCycle e i st = sendFailed e i zone tpl dl msg st"
  show ?thesis unfolding a newEvents_def
    by (simp add: sendFailed_trace logEvents_inserts isInsert_def)
qed

lemma inserts_tickCycle:
  "length (filter isInsert (newEvents st (tickCycle e i st))) \<le> 1"
  using tickCycle_cases[of e i st]
proof (elim disjE exE conjE)
  assume "tickCycle e i st = st"
  then show ?thesis by (simp add: newEvents_self)
next
  assume "tickCycle e i st = emit [Console CycleError] st"
  then show ?thesis by (simp add: newEvents_emit isInsert_def)
next
  fix zone tpl dl
  assume "tickCycle e i st = sendSucceeded_part0 i zone tpl dl st"
  then show ?thesis by (simp add: newEvents_sendSucceeded_part0 logEvents_part0_inserts isInsert_def)
next
  fix zone tpl dl msg
  assume a: "tickCycle e i st = sendFailed_part0 e i zone tpl dl msg st"
  show ?thesis unfolding a newEvents_def
    by (simp add: sendFailed_part0_trace logEvents_part0_inserts isInsert_def)
qed

lemma posts_logPostAttempt:
  "posts (logPostAttempt i k c t d s err st) = posts st @
     (if \<not> ins_err1 i
      then [\<lparr>promo_zone_id = k, post_chat_id = Some c, template_id = t, deep_link = Some d,
             post_status = s, post_error = errorText err, created_at = t_log i\<rparr>]
      else if \<not> ins_err2 i
      then [\<lparr>promo_zone_id = k, post_chat_id = None, template_id = t, deep_link = None,
             post_status = s, post_error = errorText err, created_at = t_log i\<rparr>]
      else [])"
  by (simp add: logPostAttempt_def Let_def emit_def)

lemma posts_logPostAttempt_part0:
  "posts (logPostAttempt_part0 i k c t d s err st) = posts st @
     (if \<not> p_ins_err i
      then [\<lparr>promo_zone_id = k, post_chat_id = Some c, template_id = t, deep_link = Some d,
             post_status = s, post_error = errorText err, created_at = p_t_created i\<rparr>]
      else [])"
  by (simp add: logPostAttempt_part0_def Let_def emit_def)

lemma posts_sendSucceeded:
  "posts (sendSucceeded i zone tpl dl st) = posts st @
     (if \<not> ins_err1 i
      then [\<lparr>promo_zone_id = zid zone, post_chat_id = Some (telegram_chat_id zone),
             template_id = tpl_id tpl, deep_link = Some dl,
             post_status = Success, post_error = None, created_at = t_log i\<rparr>]
      else if \<not> ins_err2 i
      then [\<lparr>promo_zone_id = zid zone, post_chat_id = None, template_id = tpl_id tpl,
             deep_link = None, post_status = Success, post_error = None, created_at = t_log i\<rparr>]
      else [])"
  by (simp add: sendSucceeded_def Let_def updateZonePosted_def updateZones_simps
      posts_logPostAttempt emit_simps errorText_def)

lemma posts_sendFailed:
  "posts (sendFailed e i zone tpl dl msg st) = posts st @
     (if \<not> ins_err1 i
      then [\<lparr>promo_zone_id = zid zone, post_chat_id = Some (telegram_chat_id zone),
             template_id = tpl_id tpl, deep_link = Some dl,
             post_status = Failed, post_error = errorText (Some msg), created_at = t_log i\<rparr>]
      else if \<not> ins_err2 i
      then [\<lparr>promo_zone_id = zid zone, post_chat_id = None, template_id = tpl_id tpl,
             deep_link = None, post_status = Failed, post_error = errorText (Some msg),
             created_at = t_log i\<rparr>]
      else [])"
  by (simp add: sendFailed_def Let_def updateZones_simps incrementFailCount_simps
      posts_logPostAttempt emit_simps)

lemma posts_sendSucceeded_part0:
  "posts (sendSucceeded_part0 i zone tpl dl st) = posts st @
     (if \<not> p_ins_err i
      then [\<lparr>promo_zone_id = zid zone, post_chat_id = Some (telegram_chat_id zone),
             template_id = tpl_id tpl, deep_link = Some dl,
             post_status = Success, post_error = None, created_at = p_t_created i\<rparr>]
      else [])"
  by (simp add: sendSucceeded_part0_def Let_def updateZonePosted_def updateZones_simps
      posts_logPostAttempt_part0 emit_simps errorText_def)

lemma posts_sendFailed_part0:
  "posts (sendFailed_part0 e i zone tpl dl msg st) = posts st @
     (if \<not> p_ins_err i
      then [\<lparr>promo_zone_id = zid zone, post_chat_id = Some (telegram_chat_id zone),
             template_id = tpl_id tpl, deep_link = Some dl,
             post_status = Failed, post_error = errorText (Some msg),
             created_at = p_t_created i\<rparr>]
      else [])"
  by (simp add: sendFailed_part0_def Let_def updateZones_simps incrementFailCount_simps
      posts_logPostAttempt_part0 emit_simps)

lemma logEvents_all_logging: "filter isLogging (logEvents i) = logEvents i"
  by (simp add: logEvents_def isLogging_def isInsert_def)

lemma logEvents_part0_all_logging: "filter isLogging (logEvents_part0 i) = logEvents_part0 i"
  by (simp add: logEvents_part0_def isLogging_def isInsert_def)

lemma logging_sendFailed:
  "filter isLogging (newEvents st (sendFailed e i zone tpl dl msg st)) = logEvents i"
  unfolding newEvents_def
  by (simp add: sendFailed_trace logEvents_all_logging isLogging_def isInsert_def)

lemma logging_sendFailed_part0:
  "filter isLogging (newEvents st (sendFailed_part0 e i zone tpl dl msg st)) = logEvents_part0 i"
  unfolding newEvents_def
  by (simp add: sendFailed_part0_trace logEvents_part0_all_logging isLogging_def isInsert_def)

lemma logging_sendSucceeded:
  "filter isLogging (newEvents st (sendSucceeded i zone tpl dl st)) = logEvents i"
  by (simp add: newEvents_sendSucceeded logEvents_all_logging isLogging_def isInsert_def)

lemma logging_sendSucceeded_part0:
  "filter isLogging (newEvents st (sendSucceeded_part0 i zone tpl dl st)) = logEvents_part0 i"
  by (simp add: newEvents_sendSucceeded_part0 logEvents_part0_all_logging isLogging_def isInsert_def)

lemma promoCycle_logs:
  assumes "SendMessage k c t ok \<in> set (newEvents st (promoCycle e i st))"
  shows "filter isLogging (newEvents st (promoCycle e i st)) = logEvents i
       \<and> (\<exists>row. promo_zone_id row = k \<and> post_chat_id row = Some c
                \<and> post_status row = (if ok then Success else Failed) \<and> created_at row = t_log i
                \<and> posts (promoCycle e i st) = posts st @
                     (if \<not> ins_err1 i then [row]
                      else if \<not> ins_err2 i then [row\<lparr>post_chat_id := None, deep_link := None\<rparr>]
                      else []))
       \<and> (ok \<longrightarrow> zones (promoCycle e i st) =
             map (onRow k (\<lambda>z. z\<lparr>last_posted_at := Some (t_posted i), last_error := None\<rparr>))
               (zones st))"
proof (cases ok)
  case True
  from assms True have "SendMessage k c t True \<in> set (newEvents st (promoCycle e i st))"
    by simp
  from promoCycle_success[OF this] obtain zone tpl dl where
    z: "zid zone = k" "telegram_chat_id zone = c"
       "promoCycle e i st = sendSucceeded i zone tpl dl st"
    by blast
  let ?row = "\<lparr>promo_zone_id = zid zone, post_chat_id = Some (telegram_chat_id zone),
             template_id = tpl_id tpl, deep_link = Some dl,
             post_status = Success, post_error = None, created_at = t_log i\<rparr>"
  have "posts (promoCycle e i st) = posts st @
          (if \<not> ins_err1 i then [?row]
           else if \<not> ins_err2 i then [?row\<lparr>post_chat_id := None, deep_link := None\<rparr>]
           else [])"
    unfolding z(3) posts_sendSucceeded by simp
  then have "\<exists>row. promo_zone_id row = k \<and> post_chat_id row = Some c
                \<and> post_status row = Success \<and> created_at row = t_log i
                \<and> posts (promoCycle e i st) = posts st @
                     (if \<not> ins_err1 i then [row]
                      else if \<not> ins_err2 i then [row\<lparr>post_chat_id := None, deep_link := None\<rparr>]
                      else [])"
    using z(1,2) by (intro exI[of _ ?row]) simp
  then show ?thesis using True z
    by (simp add: logging_sendSucceeded sendSucceeded_simps)
next
  case False
  from assms False have "SendMessage k c t False \<in> set (newEvents st (promoCycle e i st))"
    by simp
  from promoCycle_failure[OF this] obtain zone tpl dl msg where
    z: "zid zone = k" "telegram_chat_id zone = c"
       "promoCycle e i st = sendFailed e i zone tpl dl msg st"
    by blast
  let ?row = "\<lparr>promo_zone_id = zid zone, post_chat_id = Some (telegram_chat_id zone),
             template_id = tpl_id tpl, deep_link = Some dl,
             post_status = Failed, post_error = errorText (Some msg), created_at = t_log i\<rparr>"
  have "posts (promoCycle e i st) = posts st @
          (if \<not> ins_err1 i then [?row]
           else if \<not> ins_err2 i then [?row\<lparr>post_chat_id := None, deep_link := None\<rparr>]
           else [])"
    unfolding z(3) posts_sendFailed by simp
  then have "\<exists>row. promo_zone_id row = k \<and> post_chat_id row = Some c
                \<and> post_status row = Failed \<and> created_at row = t_log i
                \<and> posts (promoCycle e i st) = posts st @
                     (if \<not> ins_err1 i then [row]
                      else if \<not> ins_err2 i then [row\<lparr>post_chat_id := None, deep_link := None\<rparr>]
                      else [])"
    using z(1,2) by (intro exI[of _ ?row]) simp
  then show ?thesis using False z by (simp add: logging_sendFailed)
qed

lemma promoCycle_no_send:
  assumes "\<forall>k c t ok. SendMessage k c t ok \<notin> set (newEvents st (promoCycle e i st))"
  shows "filter isLogging (newEvents st (promoCycle e i st)) = []
       \<and> posts (promoCycle e i st) = posts st"
  using promoCycle_cases[of e i st]
proof (elim disjE exE conjE)
  assume "promoCycle e i st = st"
  then show ?thesis by (simp add: newEvents_self)
next
  assume "promoCycle e i st = emit [Console CycleError] st"
  then show ?thesis by (simp add: newEvents_emit emit_simps isLogging_def isInsert_def)
next
  fix zone tpl dl
  assume "promoCycle e i st = sendSucceeded i zone tpl dl st"
  then have "SendMessage (zid zone) (telegram_chat_id zone) (t_send i) True
      \<in> set (newEvents st (promoCycle e i st))"
    by (simp add: newEvents_sendSucceeded)
  with assms show ?thesis by blast
next
  fix zone tpl dl msg
  assume a: "promoCycle e i st = sendFailed e i zone tpl dl msg st"
  from newEvents_sendFailed[of st e i zone tpl dl msg]
  have "SendMessage (zid zone) (telegram_chat_id zone) (t_send i) False
      \<in> set (newEvents st (promoCycle e i st))"
    unfolding a by auto
  with assms show ?thesis by blast
qed

lemma tickCycle_logs:
  assumes "SendMessage k c t ok \<in> set (newEvents st (tickCycle e i st))"
  shows "filter isLogging (newEvents st (tickCycle e i st)) = logEvents_part0 i
       \<and> (\<exists>row. promo_zone_id row = k \<and> post_chat_id row = Some c
                \<and> post_status row = (if ok then Success else Failed)
                \<and> posts (tickCycle e i st) = posts st @ (if \<not> p_ins_err i then [row] else []))
       \<and> (ok \<longrightarrow> zones (tickCycle e i st) =
             map (onRow k (\<lambda>z. z\<lparr>last_posted_at := Some (p_t_posted i), last_error := None\<rparr>))
               (zones st))"
proof (cases ok)
  case True
  from assms True have "SendMessage k c t True \<in> set (newEvents st (tickCycle e i st))"
    by simp
  from tickCycle_success[OF this] obtain zone tpl dl where
    z: "zid zone = k" "telegram_chat_id zone = c"
       "tickCycle e i st = sendSucceeded_part0 i zone tpl dl st"
    by blast
  let ?row = "\<lparr>promo_zone_id = zid zone, post_chat_id = Some (telegram_chat_id zone),
             template_id = tpl_id tpl, deep_link = Some dl,
             post_status = Success, post_error = None, created_at = p_t_created i\<rparr>"
  have "\<exists>row. promo_zone_id row = k \<and> post_chat_id row = Some c
                \<and> post_status row = Success
                \<and> posts (tickCycle e i st) = posts st @ (if \<not> p_ins_err i then [row] else [])"
    unfolding z(3) posts_sendSucceeded_part0 using z(1,2) by (intro exI[of _ ?row]) simp
  then show ?thesis using True z
    by (simp add: logging_sendSucceeded_part0 sendSucceeded_part0_simps)
next
  case False
  from assms False have "SendMessage k c t False \<in> set (newEvents st (tickCycle e i st))"
    by simp
  from tickCycle_failure[OF this] obtain zone tpl dl msg where
    z: "zid zone = k" "telegram_chat_id zone = c"
       "tickCycle e i st = sendFailed_part0 e i zone tpl dl msg st"
    by blast
  let ?row = "\<lparr>promo_zone_id = zid zone, post_chat_id = Some (telegram_chat_id zone),
             template_id = tpl_id tpl, deep_link = Some dl,
             post_status = Failed, post_error = errorText (Some msg), created_at = p_t_created i\<rparr>"
  have "\<exists>row. promo_zone_id row = k \<and> post_chat_id row = Some c
                \<and> post_status row = Failed
                \<and> posts (tickCycle e i st) = posts st @ (if \<not> p_ins_err i then [row] else [])"
    unfolding z(3) posts_sendFailed_part0 using z(1,2) by (intro exI[of _ ?row]) simp
  then show ?thesis using False z by (simp add: logging_sendFailed_part0)
qed

lemma tickCycle_no_send:
  assumes "\<forall>k c t ok. SendMessage k c t ok \<notin> set (newEvents st (tickCycle e i st))"
  shows "filter isLogging (newEvents st (tickCycle e i st)) = []
       \<and> posts (tickCycle e i st) = posts st"
  using tickCycle_cases[of e i st]
proof (elim disjE exE conjE)
  assume "tickCycle e i st = st"
  then show ?thesis by (simp add: newEvents_self)
next
  assume "tickCycle e i st = emit [Console CycleError] st"
  then show ?thesis by (simp add: newEvents_emit emit_simps isLogging_def isInsert_def)
next
  fix zone tpl dl
  assume "tickCycle e i st = sendSucceeded_part0 i zone tpl dl st"
  then have "SendMessage (zid zone) (telegram_chat_id zone) (p_t_send i) True
      \<in> set (newEvents st (tickCycle e i st))"
    by (simp add: newEvents_sendSucceeded_part0)
  with assms show ?thesis by blast
next
  fix zone tpl dl msg
  assume a: "tickCycle e i st = sendFailed_part0 e i zone tpl dl msg st"
  from newEvents_sendFailed_part0[of st e i zone tpl dl msg]
  have "SendMessage (zid zone) (telegram_chat_id zone) (p_t_send i) False
      \<in> set (newEvents st (tickCycle e i st))"
    unfolding a by auto
  with assms show ?thesis by blast
qed

text \<open>
  C9, as amended. In both revisions the outcome of the inserts into the attempt log has
  no effect on the rest of the cycle: the destination table, \<open>lastGlobalPostAt\<close> and
  every event other than the inserts and their diagnostics are the same whatever the
  inserts return. A cycle that calls \<^verbatim>\<open>sendMessage\<close> logs the attempt, and only such a cycle
  logs. In index.js it makes one insert; if that fails it reports the failure and makes
  one more insert, of the minimal fallback row, which has no chat id and no link; if that
  fails too it reports the second failure; the log gains the full row, the fallback row,
  or nothing. In part_000 it makes one insert and reports nothing; the log gains the row
  or nothing. After a successful send the rows of the destination get their new
  \<open>last_posted_at\<close> whatever the inserts did.
\<close>

theorem logging_failure_is_diagnostic_only:
  "core (promoCycle e (i\<lparr>ins_err1 := a, ins_err2 := b\<rparr>) st) = core (promoCycle e i st)
   \<and> (\<forall>k c t ok. SendMessage k c t ok \<in> set (newEvents st (promoCycle e i st)) \<longrightarrow>
        filter isLogging (newEvents st (promoCycle e i st)) =
          (if \<not> ins_err1 i then [Insert True]
           else if \<not> ins_err2 i then [Insert False, Console LogInsertError, Insert True]
           else [Insert False, Console LogInsertError, Insert False, Console LogInsertError2])
        \<and> (\<exists>row. promo_zone_id row = k \<and> post_chat_id row = Some c
                \<and> post_status row = (if ok then Success else Failed) \<and> created_at row = t_log i
                \<and> posts (promoCycle e i st) = posts st @
                     (if \<not> ins_err1 i then [row]
                      else if \<not> ins_err2 i then [row\<lparr>post_chat_id := None, deep_link := None\<rparr>]
                      else []))
        \<and> (ok \<longrightarrow> zones (promoCycle e i st) =
             map (onRow k (\<lambda>z. z\<lparr>last_posted_at := Some (t_posted i), last_error := None\<rparr>))
               (zones st)))
   \<and> ((\<forall>k c t ok. SendMessage k c t ok \<notin> set (newEvents st (promoCycle e i st))) \<longrightarrow>
        filter isLogging (newEvents st (promoCycle e i st)) = []
        \<and> posts (promoCycle e i st) = posts st)
   \<and> core (tickCycle e (ip\<lparr>p_ins_err := a\<rparr>) st) = core (tickCycle e ip st)
   \<and> (\<forall>k c t ok. SendMessage k c t ok \<in> set (newEvents st (tickCycle e ip st)) \<longrightarrow>
        filter isLogging (newEvents st (tickCycle e ip st)) = [Insert (\<not> p_ins_err ip)]
        \<and> (\<exists>row. promo_zone_id row = k \<and> post_chat_id row = Some c
                \<and> post_status row = (if ok then Success else Failed)
                \<and> posts (tickCycle e ip st) = posts st @ (if \<not> p_ins_err ip then [row] else []))
        \<and> (ok \<longrightarrow> zones (tickCycle e ip st) =
             map (onRow k (\<lambda>z. z\<lparr>last_posted_at := Some (p_t_posted ip), last_error := None\<rparr>))
               (zones st)))
   \<and> ((\<forall>k c t ok. SendMessage k c t ok \<notin> set (newEvents st (tickCycle e ip st))) \<longrightarrow>
        filter isLogging (newEvents st (tickCycle e ip st)) = []
        \<and> posts (tickCycle e ip st) = posts st)"
proof (intro conjI allI impI)
  show "core (promoCycle e (i\<lparr>ins_err1 := a, ins_err2 := b\<rparr>) st) = core (promoCycle e i st)"
    by (rule core_promoCycle)
  show "core (tickCycle e (ip\<lparr>p_ins_err := a\<rparr>) st) = core (tickCycle e ip st)"
    by (rule core_tickCycle)
next
  fix k c t ok
  assume s: "SendMessage k c t ok \<in> set (newEvents st (promoCycle e i st))"
  note l = promoCycle_logs[OF s]
  show "filter isLogging (newEvents st (promoCycle e i st)) =
          (if \<not> ins_err1 i then [Insert True]
           else if \<not> ins_err2 i then [Insert False, Console LogInsertError, Insert True]
           else [Insert False, Console LogInsertError, Insert False, Console LogInsertError2])"
    using l by (simp add: logEvents_def)
  show "\<exists>row. promo_zone_id row = k \<and> post_chat_id row = Some c
                \<and> post_status row = (if ok then Success else Failed) \<and> created_at row = t_log i
                \<and> posts (promoCycle e i st) = posts st @
                     (if \<not> ins_err1 i then [row]
                      else if \<not> ins_err2 i then [row\<lparr>post_chat_id := None, deep_link := None\<rparr>]
                      else [])"
    using l by blast
  show "zones (promoCycle e i st) =
             map (onRow k (\<lambda>z. z\<lparr>last_posted_at := Some (t_posted i), last_error := None\<rparr>))
               (zones st)" if ok
    using l that by blast
next
  assume "\<forall>k c t ok. SendMessage k c t ok \<notin> set (newEvents st (promoCycle e i st))"
  from promoCycle_no_send[OF this]
  show "filter isLogging (newEvents st (promoCycle e i st)) = []"
    "posts (promoCycle e i st) = posts st"
    by simp_all
next
  fix k c t ok
  assume s: "SendMessage k c t ok \<in> set (newEvents st (tickCycle e ip st))"
  note l = tickCycle_logs[OF s]
  show "filter isLogging (newEvents st (tickCycle e ip st)) = [Insert (\<not> p_ins_err ip)]"
    using l by (simp add: logEvents_part0_def)
  show "\<exists>row. promo_zone_id row = k \<and> post_chat_id row = Some c
                \<and> post_status row = (if ok then Success else Failed)
                \<and> posts (tickCycle e ip st) = posts st @ (if \<not> p_ins_err ip then [row] else [])"
    using l by blast
  show "zones (tickCycle e ip st) =
             map (onRow k (\<lambda>z. z\<lparr>last_posted_at := Some (p_t_posted ip), last_error := None\<rparr>))
               (zones st)" if ok
    using l that by blast
next
  assume "\<forall>k c t ok. SendMessage k c t ok \<notin> set (newEvents st (tickCycle e ip st))"
  from tickCycle_no_send[OF this]
  show "filter isLogging (newEvents st (tickCycle e ip st)) = []"
    "posts (tickCycle e ip st) = posts st"
    by simp_all
qed

lemma iol_eq: "io0\<lparr>ins_err1 := True, ins_err2 := False\<rparr> = iol"
  by (simp add: iol_def io0_def)

lemma iol_simps:
  "t_quiet iol = 100000" "\<not> fetch_err iol" "rnd_zone iol = 0" "t_now iol = 100000"
  "t_count iol = 100000" "\<not> count_err iol" "templates iol = [Some tplB]" "rnd_tpl iol = 1 / 2"
  "t_send iol = 100001" "send_result iol = None" "t_log iol = 100002" "ins_err1 iol"
  "\<not> ins_err2 iol" "t_posted iol = 100003" "\<not> fc_read_err iol"
  by (simp_all add: iol_def io0_simps)

lemma cyclel: "promoCycle env0 iol state0 =
   sendSucceeded iol zone0 tplB (js ''https://t.me/jigcoinbot?start=pz_1_t_b'') state0"
  using promoCycle_one_zone[of env0 iol state0 zone0]
  by (simp add: env0_simps iol_simps state0_simps zone0_simps pick_ex)

lemma sendl: "SendMessage 1 7 100001 True \<in> set (newEvents state0 (promoCycle env0 iol state0))"
  by (simp add: cyclel newEvents_sendSucceeded zone0_simps iol_simps)

text \<open>
  The example cycle with a failing first insert: the send succeeds, the failure is
  reported and the fallback insert stores its row, and the row of destination 1 has its
  new \<open>last_posted_at\<close>. In part_000 the example cycle makes its one insert.
\<close>

theorem logging_failure_is_diagnostic_only_witness:
  "SendMessage 1 7 100001 True \<in> set (newEvents state0 (promoCycle env0 iol state0))
   \<and> ins_err1 iol \<and> \<not> ins_err2 iol
   \<and> filter isLogging (newEvents state0 (promoCycle env0 iol state0)) =
       [Insert False, Console LogInsertError, Insert True]
   \<and> length (posts (promoCycle env0 iol state0)) = 1
   \<and> zones (promoCycle env0 iol state0) =
       [zone0\<lparr>last_posted_at := Some 100003, last_error := None\<rparr>]
   \<and> SendMessage 1 7 100001 True \<in> set (newEvents state0 (tickCycle env0 iop0 state0))
   \<and> filter isLogging (newEvents state0 (tickCycle env0 iop0 state0)) = [Insert True]"
proof -
  note th = logging_failure_is_diagnostic_only
      [where e = env0 and i = iol and ip = iop0 and st = state0]
  note th2 = th[THEN conjunct2, THEN conjunct1, rule_format, OF sendl]
  note th5 = th[THEN conjunct2, THEN conjunct2, THEN conjunct2, THEN conjunct2, THEN conjunct1,
      rule_format, OF sendp0]
  have a: "filter isLogging (newEvents state0 (promoCycle env0 iol state0)) =
       [Insert False, Console LogInsertError, Insert True]"
    using th2 by (simp add: iol_simps)
  have b: "length (posts (promoCycle env0 iol state0)) = 1"
    using th2 by (auto simp: iol_simps state0_simps)
  have c: "zones (promoCycle env0 iol state0) =
       [zone0\<lparr>last_posted_at := Some 100003, last_error := None\<rparr>]"
    using th2 by (simp add: iol_simps state0_simps zone0_simps onRow_def)
  have d: "filter isLogging (newEvents state0 (tickCycle env0 iop0 state0)) = [Insert True]"
    using th5 by (simp add: iop0_simps)
  show ?thesis using sendl sendp0 a b c d by (simp add: iol_simps)
qed

text \<open>
  C9 as stated fails in index.js: when the first insert fails, the same call retries at
  once with the fallback insert, so the cycle makes two inserts for one attempt.
\<close>

theorem log_insert_retried_counterexample:
  "newEvents state0 (promoCycle env0 iol state0) =
     [SendMessage 1 7 100001 True, Insert False, Console LogInsertError, Insert True]"
  by (simp add: cyclel newEvents_sendSucceeded logEvents_def zone0_simps iol_simps)

section \<open>Eligibility gate and spacing of sends\<close>





































section \<open>Scheduler: properties\<close>

lemma schedInv_start: "schedInv (schedStart b)"
  by (simp add: schedInv_def schedStart_def scheduleNextCycle_def)

lemma schedInv_step:
  assumes "schedInv s" "schedStep ev s = Some s'"
  shows "schedInv s'"
proof (cases ev)
  case (TimerFires h)
  with assms show ?thesis
    by (auto simp: schedInv_def timerFires_def split: if_splits)
next
  case CycleReturns
  with assms show ?thesis
    by (auto simp: schedInv_def cycleReturns_def scheduleNextCycle_def clearTimeout_def Let_def
        split: if_splits option.splits)
next
  case Signal
  with assms show ?thesis
    by (auto simp: schedInv_def shutdown_def clearTimeout_def Let_def
        split: if_splits option.splits)
qed

lemma schedInv_run: "schedInv s \<Longrightarrow> schedRun evs s = Some s' \<Longrightarrow> schedInv s'"
proof (induction evs arbitrary: s)
  case Nil
  then show ?case by simp
next
  case (Cons ev evs)
  then show ?case by (auto split: option.splits dest: schedInv_step)
qed

lemma shuttingDown_step:
  "schedStep ev s = Some s' \<Longrightarrow> shuttingDown s' = (shuttingDown s \<or> ev = Signal)"
  by (cases ev)
     (auto simp: timerFires_def cycleReturns_def scheduleNextCycle_def shutdown_def
        clearTimeout_def Let_def split: if_splits option.splits)

lemma shuttingDown_run:
  "schedRun evs s = Some s' \<Longrightarrow> shuttingDown s' = (shuttingDown s \<or> Signal \<in> set evs)"
proof (induction evs arbitrary: s)
  case Nil
  then show ?case by simp
next
  case (Cons ev evs)
  then show ?case by (auto split: option.splits dest: shuttingDown_step)
qed

lemma shuttingDown_start: "shuttingDown (schedStart b) = b"
  by (simp add: schedStart_def scheduleNextCycle_def)

lemma timerFires_running: "schedInv s \<Longrightarrow> inFlight s = 1 \<Longrightarrow> timerFires h s = None"
  by (simp add: schedInv_def timerFires_def)

lemma schedInv_part0_start: "schedInv_part0 startScheduler"
  by (simp add: schedInv_part0_def startScheduler_def tick_def)

lemma schedInv_part0_step:
  assumes "schedInv_part0 s" "schedStep_part0 ev s = Some s'"
  shows "schedInv_part0 s'"
  using assms
  by (cases ev) (auto simp: schedInv_part0_def tick_def Let_def split: if_splits)

lemma schedInv_part0_run:
  "schedInv_part0 s \<Longrightarrow> schedRun_part0 evs s = Some s' \<Longrightarrow> schedInv_part0 s'"
proof (induction evs arbitrary: s)
  case Nil
  then show ?case by simp
next
  case (Cons ev evs)
  then show ?case by (auto split: option.splits dest: schedInv_part0_step)
qed

lemma exited_step:
  "schedStep_part0 ev s = Some s' \<Longrightarrow> exited s' = (exited s \<or> ev = Exit)"
  by (cases ev) (auto simp: tick_def Let_def split: if_splits)

lemma exited_run:
  "schedRun_part0 evs s = Some s' \<Longrightarrow> exited s' = (exited s \<or> Exit \<in> set evs)"
proof (induction evs arbitrary: s)
  case Nil
  then show ?case by simp
next
  case (Cons ev evs)
  then show ?case by (auto split: option.splits dest: exited_step)
qed

lemma tick_skipped:
  "schedInv_part0 s \<Longrightarrow> cycleInFlight s \<Longrightarrow> \<not> exited s \<Longrightarrow> schedStep_part0 TickFires s = Some s"
  by (simp add: schedInv_part0_def tick_def)


text \<open>
  What the two guarded schedulers achieve for the cycles they start themselves. In
  index.js at most one cycle is in flight, no timer is pending while it runs, exactly one
  timer is pending when no cycle runs and no shutdown was signalled, none after a
  shutdown, and \<^verbatim>\<open>shuttingDown\<close> is set only by a signal. In part_000 at most one cycle
  started by \<^verbatim>\<open>tick\<close> is in flight, a tick that fires meanwhile leaves the state as it was,
  exactly one timer is pending until the process exits, and it exits only on a signal.
\<close>

lemma scheduler_guards:
  "(schedRun evs (schedStart b) = Some s \<longrightarrow>
      inFlight s \<le> 1
      \<and> (inFlight s = 1 \<longrightarrow> (\<forall>h. timerFires h s = None))
      \<and> (\<not> shuttingDown s \<and> inFlight s = 0 \<longrightarrow> (\<exists>h. pendingTimers s = {h}))
      \<and> (shuttingDown s \<longrightarrow> pendingTimers s = {})
      \<and> shuttingDown s = (b \<or> Signal \<in> set evs))
   \<and> (schedRun_part0 evs' startScheduler = Some s' \<longrightarrow>
      tickCycles s' \<le> 1
      \<and> (tickCycles s' = 1) = cycleInFlight s'
      \<and> (cycleInFlight s' \<and> \<not> exited s' \<longrightarrow> schedStep_part0 TickFires s' = Some s')
      \<and> (\<not> exited s' \<longrightarrow> tickTimers s' = 1)
      \<and> exited s' = (Exit \<in> set evs'))"
proof (intro conjI impI)
  assume r: "schedRun evs (schedStart b) = Some s"
  have i: "schedInv s" using schedInv_run[OF schedInv_start r] .
  show "inFlight s \<le> 1" using i by (simp add: schedInv_def)
  show "\<forall>h. timerFires h s = None" if "inFlight s = 1"
    using i that by (simp add: timerFires_running)
  show "\<exists>h. pendingTimers s = {h}" if "\<not> shuttingDown s \<and> inFlight s = 0"
    using i that by (simp add: schedInv_def)
  show "pendingTimers s = {}" if "shuttingDown s"
    using i that by (simp add: schedInv_def)
  show "shuttingDown s = (b \<or> Signal \<in> set evs)"
    using shuttingDown_run[OF r] by (simp add: shuttingDown_start)
next
  assume r: "schedRun_part0 evs' startScheduler = Some s'"
  have i: "schedInv_part0 s'" using schedInv_part0_run[OF schedInv_part0_start r] .
  show "tickCycles s' \<le> 1" using i by (simp add: schedInv_part0_def)
  show "(tickCycles s' = 1) = cycleInFlight s'" using i by (simp add: schedInv_part0_def)
  show "schedStep_part0 TickFires s' = Some s'" if "cycleInFlight s' \<and> \<not> exited s'"
    using tick_skipped[OF i] that by blast
  show "tickTimers s' = 1" using i by (simp add: schedInv_part0_def)
  show "exited s' = (Exit \<in> set evs')"
    using exited_run[OF r] by (simp add: startScheduler_def tick_def)
qed

text \<open>
  C5: the code departs from the claim. In part_000 the first cycle returns, an admin
  sends \<^verbatim>\<open>/postnow\<close>, so that one cycle is in flight, and the timer of \<^verbatim>\<open>tick\<close> fires while
  that cycle is still running: the tick is not skipped but starts a second cycle, and two
  are in flight. In the second copy in index.js the one-shot timer and the interval fire
  one after the other, and two cycles are in flight as well.
\<close>

theorem postnow_overlap:
  "schedRun_part0 [TickCycleReturns, PostNow] startScheduler
     = Some \<lparr>cycleInFlight = False, tickTimers = 1, tickCycles = 0, commandCycles = 1,
             exited = False\<rparr>
   \<and> schedRun_part0 [TickCycleReturns, PostNow, TickFires] startScheduler
     = Some \<lparr>cycleInFlight = True, tickTimers = 1, tickCycles = 1, commandCycles = 1,
             exited = False\<rparr>
   \<and> schedRun_interval [BootTimerFires, IntervalFires] schedStart_interval
     = Some \<lparr>bootTimer = False, running = 2\<rparr>"
  by (simp add: startScheduler_def tick_def schedStart_interval_def)

end
